theory Spec2Isabelle
  imports Complex_Main "HOL-Library.Char_ord" "HOL-Library.List_Lexorder" "HOL-Library.Multiset"
begin

section \<open>Text rendering used by the query builders\<close>

text \<open>
  Python's \<open>str(int)\<close>, as the f-strings of \<open>db.py\<close> apply it to placeholder indices and to
  \<open>limit\<close>/\<open>offset\<close>, and \<open>sep.join(parts)\<close>.
\<close>

definition digit_char :: "nat \<Rightarrow> char" where
  "digit_char d = ''0123456789'' ! d"

fun show_nat :: "nat \<Rightarrow> string" where
  "show_nat n = (if n < 10 then [digit_char n] else show_nat (n div 10) @ [digit_char (n mod 10)])"

declare show_nat.simps [simp del]

definition show_int :: "int \<Rightarrow> string" where
  "show_int i = (if i < 0 then CHR ''-'' # show_nat (nat (- i)) else show_nat (nat i))"

fun join_str :: "string \<Rightarrow> string list \<Rightarrow> string" where
  "join_str sep [] = []"
| "join_str sep [x] = x"
| "join_str sep (x # y # ys) = x @ sep @ join_str sep (y # ys)"

section \<open>Tables\<close>

text \<open>
  A Python \<open>float\<close> price is a rational number here (no arithmetic is ever done on it), a
  \<open>date\<close> is year, month, day. A table is the list of its rows in physical order.
\<close>

type_synonym price = rat
type_synonym date = "int \<times> int \<times> int"

record author_row =
  a_id :: int
  a_name :: string
  a_bio :: "string option"

record category_row =
  c_id :: int
  c_name :: string

record book_row =
  b_id :: int
  b_title :: string
  b_description :: string
  b_price :: price
  b_author_id :: int
  b_published_date :: date

record user_row =
  u_id :: int
  u_username :: string
  u_email :: string

datatype jval = JNull | JInt int | JStr string

record log_row =
  l_user_id :: "int option"
  l_action :: string
  l_details :: "(string \<times> jval) list"

record store =
  authors :: "author_row list"
  categories :: "category_row list"
  books :: "book_row list"
  book_categories :: "(int \<times> int) list"
  users :: "user_row list"
  logs :: "log_row list"

text \<open>
  Modelled from the spec: the table declarations are not part of the sources. The spec
  gives \<open>books.author_id\<close> as a non-null foreign key to \<open>authors\<close>, \<open>book_categories\<close> a
  composite key \<open>(book_id, category_id)\<close>, \<open>logs.user_id\<close> a nullable foreign key to
  \<open>users\<close>, every \<open>id\<close> an identity key, and every supplied category id a reference to an
  existing category. It leaves open what ties an association row to its book: either
  nothing (rows of a deleted book are orphaned) or a cascading reference. That choice is
  the parameter \<open>book_reference\<close> of every operation that depends on it.
\<close>

datatype book_reference = Unconstrained | Cascade

datatype db_error =
    UniqueViolation
  | ForeignKeyViolation
  | NotNullViolation
  | DataError
  | UndefinedParameter
  | UndefinedTable
  | InvalidRowCount
  | NumericValueOutOfRange

text \<open>
  Modelled from the spec: every id is an \<open>integer\<close> column. The driver encodes a value
  bound to a placeholder in the type of the column before the statement runs and raises
  \<open>DataError\<close> for an integer outside the 32-bit range. The delete and the search
  statements carry this check; the statements of the create and update paths are
  modelled for ids within the range. The engine reads the literals after \<open>LIMIT\<close> and
  \<open>OFFSET\<close> as 64-bit integers and refuses a larger one.
\<close>

definition id_in_range :: "int \<Rightarrow> bool" where
  "id_in_range k = (- 2147483648 \<le> k \<and> k \<le> 2147483647)"

definition bigint_in_range :: "int \<Rightarrow> bool" where
  "bigint_in_range n = (- 9223372036854775808 \<le> n \<and> n \<le> 9223372036854775807)"

section \<open>Statements and bound parameters\<close>

datatype sql_value =
    VNull
  | VInt int
  | VText string
  | VNum price
  | VDate date
  | VIntArray "int list"
  | VJson "(string \<times> jval) list"

datatype column = Title | Description | Price | AuthorId | PublishedDate

datatype cond = AuthorIdEq nat | CategoryIdEq nat | FullText nat

text \<open>
  One constructor per statement text of \<open>db.py\<close>. The two statements whose text is built
  at run time carry what the builder put into it: \<open>UpdateBooks\<close> the \<open>SET\<close> items with their
  placeholder indices and the index of the \<open>WHERE\<close> placeholder, \<open>SelectBooks\<close> whether the
  association join was appended, the \<open>WHERE\<close> items, and the \<open>limit\<close> and \<open>offset\<close> the
  f-string wrote into the text.
\<close>

datatype statement =
    SelectAuthorById
  | SelectCategoryById
  | SelectBookJoinedById
  | SelectCategoriesOfBook
  | InsertBook
  | InsertBookCategory
  | UpdateBooks "(column \<times> nat) list" nat
  | DeleteBookCategories
  | SelectBookById
  | DeleteBook
  | SelectBooks bool "cond list" int int
  | SelectCategoriesOfBooks
  | InsertLog

fun column_name :: "column \<Rightarrow> string" where
  "column_name Title = ''title''"
| "column_name Description = ''description''"
| "column_name Price = ''price''"
| "column_name AuthorId = ''author_id''"
| "column_name PublishedDate = ''published_date''"

definition render_assign :: "column \<times> nat \<Rightarrow> string" where
  "render_assign a = column_name (fst a) @ ''=$'' @ show_nat (snd a)"

fun render_cond :: "cond \<Rightarrow> string" where
  "render_cond (AuthorIdEq i) = ''b.author_id=$'' @ show_nat i"
| "render_cond (CategoryIdEq i) = ''bc.category_id=$'' @ show_nat i"
| "render_cond (FullText i) =
     ''to_tsvector('english', b.title || ' ' || b.description) @@ plainto_tsquery('english', $''
       @ show_nat i @ '')''"

definition set_part :: "(column \<times> nat) list \<Rightarrow> string" where
  "set_part up_fields = join_str '', '' (map render_assign up_fields)"

fun sql_text :: "statement \<Rightarrow> string" where
  "sql_text SelectAuthorById = ''SELECT id, name, bio FROM authors WHERE id=$1''"
| "sql_text SelectCategoryById = ''SELECT id, name FROM categories WHERE id=$1''"
| "sql_text SelectBookJoinedById =
     ''\<newline>                SELECT b.id, b.title, b.description, b.price, b.author_id, b.published_date, a.name as author_name''
     @ ''\<newline>                FROM books b''
     @ ''\<newline>                JOIN authors a ON b.author_id = a.id''
     @ ''\<newline>                WHERE b.id=$1''
     @ ''\<newline>                ''"
| "sql_text SelectCategoriesOfBook =
     ''SELECT c.id, c.name FROM categories c JOIN book_categories bc ON c.id = bc.category_id WHERE bc.book_id = $1''"
| "sql_text InsertBook =
     ''INSERT INTO books(title, description, price, author_id, published_date) VALUES ($1, $2, $3, $4, $5) RETURNING id, title, description, price, author_id, published_date''"
| "sql_text InsertBookCategory = ''INSERT INTO book_categories(book_id, category_id) VALUES ($1, $2)''"
| "sql_text (UpdateBooks up_fields idx) =
     ''UPDATE books SET '' @ set_part up_fields @ '' WHERE id=$'' @ show_nat idx"
| "sql_text DeleteBookCategories = ''DELETE FROM book_categories WHERE book_id=$1''"
| "sql_text SelectBookById = ''SELECT * FROM books WHERE id=$1''"
| "sql_text DeleteBook = ''DELETE FROM books WHERE id=$1''"
| "sql_text (SelectBooks join_bc wheres limit_lit offset_lit) =
     join_str '' ''
       ([''SELECT b.id, b.title, b.description, b.price, b.author_id, b.published_date, a.name as author_name''
           @ '' FROM books b JOIN authors a ON b.author_id = a.id'']
        @ (if join_bc then [''JOIN book_categories bc ON b.id = bc.book_id''] else [])
        @ (if wheres \<noteq> [] then [''WHERE '' @ join_str '' AND '' (map render_cond wheres)] else [])
        @ [''ORDER BY b.title LIMIT '' @ show_int limit_lit @ '' OFFSET '' @ show_int offset_lit])"
| "sql_text SelectCategoriesOfBooks =
     ''SELECT bc.book_id, c.id, c.name FROM book_categories bc JOIN categories c ON bc.category_id = c.id WHERE bc.book_id = ANY($1::int[])''"
| "sql_text InsertLog = ''INSERT INTO logs(user_id, action, details) VALUES ($1, $2, $3)''"

section \<open>The connection\<close>

text \<open>
  A connection holds the tables, the identity sequence of \<open>books.id\<close> (which a rollback
  does not restore) and the statements issued so far, each with its bound parameters.
\<close>

record conn =
  tables :: store
  book_id_seq :: int
  issued :: "(statement \<times> sql_value list) list"

definition issue :: "statement \<Rightarrow> sql_value list \<Rightarrow> conn \<Rightarrow> conn" where
  "issue q params c = c\<lparr>issued := issued c @ [(q, params)]\<rparr>"

definition transaction :: "(conn \<Rightarrow> (db_error + 'a) \<times> conn) \<Rightarrow> conn \<Rightarrow> (db_error + 'a) \<times> conn" where
  "transaction body c =
     (case body c of
        (Inl e, c') \<Rightarrow> (Inl e, c'\<lparr>tables := tables c\<rparr>)
      | (Inr r, c') \<Rightarrow> (Inr r, c'))"

definition on_tables :: "(store \<Rightarrow> store) \<Rightarrow> conn \<Rightarrow> conn" where
  "on_tables f c = c\<lparr>tables := f (tables c)\<rparr>"

section \<open>Authors and categories\<close>

definition db_get_author_by_id :: "int \<Rightarrow> conn \<Rightarrow> author_row option \<times> conn" where
  "db_get_author_by_id author_id c =
     (find (\<lambda>a. a_id a = author_id) (authors (tables c)),
      issue SelectAuthorById [VInt author_id] c)"

definition db_get_category_by_id :: "int \<Rightarrow> conn \<Rightarrow> category_row option \<times> conn" where
  "db_get_category_by_id category_id c =
     (find (\<lambda>k. c_id k = category_id) (categories (tables c)),
      issue SelectCategoryById [VInt category_id] c)"

section \<open>Books\<close>

text \<open>
  The row of the primary book queries (a book joined with its author's name) and the
  dictionary returned to the caller, which adds the \<open>categories\<close> list.
\<close>

record book_joined =
  bj_id :: int
  bj_title :: string
  bj_description :: string
  bj_price :: price
  bj_author_id :: int
  bj_published_date :: date
  bj_author_name :: string

record book_out =
  bo_id :: int
  bo_title :: string
  bo_description :: string
  bo_price :: price
  bo_author_id :: int
  bo_published_date :: date
  bo_author_name :: string
  bo_categories :: "category_row list"

definition joined_row :: "book_row \<Rightarrow> author_row \<Rightarrow> book_joined" where
  "joined_row b a =
     \<lparr>bj_id = b_id b, bj_title = b_title b, bj_description = b_description b,
      bj_price = b_price b, bj_author_id = b_author_id b,
      bj_published_date = b_published_date b, bj_author_name = a_name a\<rparr>"

definition with_categories :: "book_joined \<Rightarrow> category_row list \<Rightarrow> book_out" where
  "with_categories r cats =
     \<lparr>bo_id = bj_id r, bo_title = bj_title r, bo_description = bj_description r,
      bo_price = bj_price r, bo_author_id = bj_author_id r,
      bo_published_date = bj_published_date r, bo_author_name = bj_author_name r,
      bo_categories = cats\<rparr>"

text \<open>\<open>FROM books b JOIN authors a ON b.author_id = a.id\<close>, rows in nested-loop order.\<close>

definition joined_books :: "store \<Rightarrow> (book_row \<times> author_row) list" where
  "joined_books s = [(b, a). b \<leftarrow> books s, a \<leftarrow> authors s, b_author_id b = a_id a]"

text \<open>\<open>FROM categories c JOIN book_categories bc ON c.id = bc.category_id WHERE bc.book_id = $1\<close>.\<close>

definition categories_of_book :: "int \<Rightarrow> store \<Rightarrow> category_row list" where
  "categories_of_book book_id s =
     [k. k \<leftarrow> categories s, bc \<leftarrow> book_categories s, c_id k = snd bc \<and> fst bc = book_id]"

definition db_get_book_by_id :: "int \<Rightarrow> conn \<Rightarrow> book_out option \<times> conn" where
  "db_get_book_by_id book_id c =
     (let c1 = issue SelectBookJoinedById [VInt book_id] c in
      case filter (\<lambda>r. b_id (fst r) = book_id) (joined_books (tables c1)) of
        [] \<Rightarrow> (None, c1)
      | row # _ \<Rightarrow>
          (let c2 = issue SelectCategoriesOfBook [VInt book_id] c1;
               cat_rows = categories_of_book book_id (tables c2)
           in (Some (with_categories (joined_row (fst row) (snd row)) cat_rows), c2)))"

subsection \<open>The statements of the write paths\<close>


definition insert_book_category ::
  "book_reference \<Rightarrow> int \<Rightarrow> int \<Rightarrow> conn \<Rightarrow> (db_error + unit) \<times> conn" where
  "insert_book_category sch book_id cid c =
     (let c1 = issue InsertBookCategory [VInt book_id, VInt cid] c
      in if (book_id, cid) \<in> set (book_categories (tables c)) then (Inl UniqueViolation, c1)
         else if cid \<in> set (map c_id (categories (tables c)))
         then (if sch = Cascade
               then (if book_id \<in> set (map b_id (books (tables c)))
                     then (Inr (), on_tables (\<lambda>s. s\<lparr>book_categories := book_categories s @ [(book_id, cid)]\<rparr>) c1)
                     else (Inl ForeignKeyViolation, c1))
               else (Inr (), on_tables (\<lambda>s. s\<lparr>book_categories := book_categories s @ [(book_id, cid)]\<rparr>) c1))
         else (Inl ForeignKeyViolation, c1))"

text \<open>\<open>for cid in category_ids: await conn.execute("INSERT INTO book_categories ...")\<close>\<close>

fun attach_categories ::
  "book_reference \<Rightarrow> int \<Rightarrow> int list \<Rightarrow> conn \<Rightarrow> (db_error + unit) \<times> conn" where
  "attach_categories sch book_id [] c = (Inr (), c)"
| "attach_categories sch book_id (cid # cids) c =
     (case insert_book_category sch book_id cid c of
        (Inl e, c') \<Rightarrow> (Inl e, c')
      | (Inr _, c') \<Rightarrow> attach_categories sch book_id cids c')"

definition delete_book_categories :: "int \<Rightarrow> conn \<Rightarrow> conn" where
  "delete_book_categories book_id c =
     on_tables (\<lambda>s. s\<lparr>book_categories := filter (\<lambda>bc. fst bc \<noteq> book_id) (book_categories s)\<rparr>)
       (issue DeleteBookCategories [VInt book_id] c)"

text \<open>
  \<open>UPDATE books SET col=$i, ... WHERE id=$idx\<close>: each \<open>SET\<close> item takes the bound
  parameter its placeholder names. A row whose \<open>author_id\<close> changes must reference an
  existing author.
\<close>

definition param :: "sql_value list \<Rightarrow> nat \<Rightarrow> db_error + sql_value" where
  "param params i =
     (if 1 \<le> i \<and> i \<le> length params then Inr (params ! (i - 1)) else Inl UndefinedParameter)"

fun assign :: "column \<Rightarrow> sql_value \<Rightarrow> book_row \<Rightarrow> db_error + book_row" where
  "assign col VNull r = Inl NotNullViolation"
| "assign Title (VText t) r = Inr (r\<lparr>b_title := t\<rparr>)"
| "assign Description (VText d) r = Inr (r\<lparr>b_description := d\<rparr>)"
| "assign Price (VNum p) r = Inr (r\<lparr>b_price := p\<rparr>)"
| "assign AuthorId (VInt a) r = Inr (r\<lparr>b_author_id := a\<rparr>)"
| "assign PublishedDate (VDate d) r = Inr (r\<lparr>b_published_date := d\<rparr>)"
| "assign col v r = Inl DataError"

fun apply_assigns :: "sql_value list \<Rightarrow> (column \<times> nat) list \<Rightarrow> book_row \<Rightarrow> db_error + book_row" where
  "apply_assigns params [] r = Inr r"
| "apply_assigns params (a # as) r =
     (case param params (snd a) of
        Inl e \<Rightarrow> Inl e
      | Inr v \<Rightarrow>
          (case assign (fst a) v r of
             Inl e \<Rightarrow> Inl e
           | Inr r' \<Rightarrow> apply_assigns params as r'))"

fun update_rows ::
  "int list \<Rightarrow> sql_value list \<Rightarrow> (column \<times> nat) list \<Rightarrow> int \<Rightarrow> book_row list
     \<Rightarrow> db_error + book_row list" where
  "update_rows author_ids params up_fields k [] = Inr []"
| "update_rows author_ids params up_fields k (r # rs) =
     (if b_id r = k
      then (case apply_assigns params up_fields r of
              Inl e \<Rightarrow> Inl e
            | Inr r' \<Rightarrow>
                (if b_author_id r' = b_author_id r \<or> b_author_id r' \<in> set author_ids
                 then (case update_rows author_ids params up_fields k rs of
                         Inl e \<Rightarrow> Inl e
                       | Inr rs' \<Rightarrow> Inr (r' # rs'))
                 else Inl ForeignKeyViolation))
      else (case update_rows author_ids params up_fields k rs of
              Inl e \<Rightarrow> Inl e
            | Inr rs' \<Rightarrow> Inr (r # rs')))"

definition update_books ::
  "(column \<times> nat) list \<Rightarrow> nat \<Rightarrow> sql_value list \<Rightarrow> conn \<Rightarrow> (db_error + unit) \<times> conn" where
  "update_books up_fields idx params c =
     (let c1 = issue (UpdateBooks up_fields idx) params c
      in case param params idx of
           Inl e \<Rightarrow> (Inl e, c1)
         | Inr (VInt k) \<Rightarrow>
             (case update_rows (map a_id (authors (tables c))) params up_fields k (books (tables c)) of
                Inl e \<Rightarrow> (Inl e, c1)
              | Inr rows \<Rightarrow> (Inr (), on_tables (\<lambda>s. s\<lparr>books := rows\<rparr>) c1))
         | Inr VNull \<Rightarrow> (Inr (), c1)
         | Inr _ \<Rightarrow> (Inl DataError, c1))"

subsection \<open>\<open>Database.create_book\<close>\<close>


subsection \<open>\<open>Database.update_book\<close>\<close>

text \<open>
  The five \<open>if field is not None\<close> blocks: each appends \<open>col=$idx\<close> to \<open>up_fields\<close> and
  the value to \<open>params\<close>, and increments \<open>idx\<close>.
\<close>

definition add_field ::
  "column \<Rightarrow> sql_value option \<Rightarrow> (column \<times> nat) list \<times> sql_value list \<times> nat
     \<Rightarrow> (column \<times> nat) list \<times> sql_value list \<times> nat" where
  "add_field col v st =
     (case st of (up_fields, params, idx) \<Rightarrow>
        (case v of
           None \<Rightarrow> (up_fields, params, idx)
         | Some x \<Rightarrow> (up_fields @ [(col, idx)], params @ [x], idx + 1)))"

definition build_update ::
  "string option \<Rightarrow> string option \<Rightarrow> price option \<Rightarrow> int option \<Rightarrow> date option
     \<Rightarrow> (column \<times> nat) list \<times> sql_value list \<times> nat" where
  "build_update title description price author_id published_date =
     add_field PublishedDate (map_option VDate published_date)
       (add_field AuthorId (map_option VInt author_id)
         (add_field Price (map_option VNum price)
           (add_field Description (map_option VText description)
             (add_field Title (map_option VText title) ([], [], 1)))))"

definition update_core ::
  "int \<Rightarrow> string option \<Rightarrow> string option \<Rightarrow> price option \<Rightarrow> int option \<Rightarrow> date option \<Rightarrow> conn
     \<Rightarrow> (db_error + unit) \<times> conn" where
  "update_core book_id title description price author_id published_date c =
     (case build_update title description price author_id published_date of
        (up_fields, params, idx) \<Rightarrow>
          (if set_part up_fields \<noteq> []
           then update_books up_fields idx (params @ [VInt book_id]) c
           else (Inr (), c)))"

definition update_categories ::
  "book_reference \<Rightarrow> int \<Rightarrow> int list option \<Rightarrow> conn \<Rightarrow> (db_error + unit) \<times> conn" where
  "update_categories sch book_id category_ids c =
     (case category_ids of
        None \<Rightarrow> (Inr (), c)
      | Some cids \<Rightarrow> attach_categories sch book_id cids (delete_book_categories book_id c))"

definition select_book_by_id :: "int \<Rightarrow> conn \<Rightarrow> book_row option \<times> conn" where
  "select_book_by_id book_id c =
     (find (\<lambda>b. b_id b = book_id) (books (tables c)), issue SelectBookById [VInt book_id] c)"

definition db_update_book ::
  "book_reference \<Rightarrow> int \<Rightarrow> string option \<Rightarrow> string option \<Rightarrow> price option \<Rightarrow> int option
     \<Rightarrow> date option \<Rightarrow> int list option \<Rightarrow> conn \<Rightarrow> (db_error + book_row option) \<times> conn" where
  "db_update_book sch book_id title description price author_id published_date category_ids =
     transaction (\<lambda>c.
       case update_core book_id title description price author_id published_date c of
         (Inl e, c1) \<Rightarrow> (Inl e, c1)
       | (Inr _, c1) \<Rightarrow>
           (case update_categories sch book_id category_ids c1 of
              (Inl e, c2) \<Rightarrow> (Inl e, c2)
            | (Inr _, c2) \<Rightarrow>
                (case select_book_by_id book_id c2 of (row, c3) \<Rightarrow> (Inr row, c3))))"

subsection \<open>\<open>Database.delete_book\<close>\<close>

text \<open>
  \<open>conn.execute\<close> returns the command status (\<open>DELETE n\<close>, \<open>n\<close> the number of rows
  removed); the method returns \<open>result[-1] != '0'\<close>.
\<close>

definition execute_delete_book ::
  "book_reference \<Rightarrow> int \<Rightarrow> conn \<Rightarrow> (db_error + string) \<times> conn" where
  "execute_delete_book sch book_id c =
     (let n = length (filter (\<lambda>b. b_id b = book_id) (books (tables c)));
          c1 = issue DeleteBook [VInt book_id] c
      in if id_in_range book_id
         then (Inr (''DELETE '' @ show_nat n),
               on_tables (\<lambda>s. s\<lparr>books := filter (\<lambda>b. b_id b \<noteq> book_id) (books s),
                                 book_categories :=
                                   (if sch = Cascade \<and> 0 < n
                                    then filter (\<lambda>bc. fst bc \<noteq> book_id) (book_categories s)
                                    else book_categories s)\<rparr>) c1)
         else (Inl DataError, c1))"

definition db_delete_book ::
  "book_reference \<Rightarrow> int \<Rightarrow> conn \<Rightarrow> (db_error + bool) \<times> conn" where
  "db_delete_book sch book_id c =
     (case execute_delete_book sch book_id c of
        (Inl e, c') \<Rightarrow> (Inl e, c')
      | (Inr result, c') \<Rightarrow> (Inr (last result \<noteq> CHR ''0''), c'))"

subsection \<open>\<open>Database.list_books\<close>: the query builder\<close>

text \<open>
  \<open>if search:\<close> takes \<open>None\<close> and the empty string alike as "no search phrase".
\<close>

definition truthy_str :: "string option \<Rightarrow> string option" where
  "truthy_str s = (case s of None \<Rightarrow> None | Some t \<Rightarrow> (if t = [] then None else Some t))"

definition add_where ::
  "(nat \<Rightarrow> cond) \<Rightarrow> sql_value option \<Rightarrow> cond list \<times> sql_value list \<times> nat
     \<Rightarrow> cond list \<times> sql_value list \<times> nat" where
  "add_where mk v st =
     (case st of (wheres, params, idx) \<Rightarrow>
        (case v of
           None \<Rightarrow> (wheres, params, idx)
         | Some x \<Rightarrow> (wheres @ [mk idx], params @ [x], idx + 1)))"

definition build_list_query ::
  "int option \<Rightarrow> int option \<Rightarrow> string option \<Rightarrow> int \<Rightarrow> int \<Rightarrow> statement \<times> sql_value list" where
  "build_list_query author_id category_id search limit offset =
     (case add_where FullText (map_option VText (truthy_str search))
             (add_where CategoryIdEq (map_option VInt category_id)
               (add_where AuthorIdEq (map_option VInt author_id) ([], [], 1))) of
        (wheres, params, idx) \<Rightarrow>
          (SelectBooks (category_id \<noteq> None) wheres limit offset, params))"

subsection \<open>\<open>Database.list_books\<close>: what the built query selects\<close>

text \<open>
  The full-text predicate \<open>to_tsvector('english', doc) @@ plainto_tsquery('english', q)\<close>
  belongs to the storage engine, and so do the collation that compares titles, the order
  in which \<open>ORDER BY b.title\<close> returns the rows (rows with equal titles come in an order
  of the engine's choosing) and the order of the rows of a query that has no
  \<open>ORDER BY\<close>. They are the fields of the parameter \<open>engine\<close>.
\<close>

type_synonym fts = "string \<Rightarrow> string \<Rightarrow> bool"

type_synonym from_row = "book_row \<times> author_row \<times> (int \<times> int) option"

record engine =
  full_text :: fts
  title_le :: "string \<Rightarrow> string \<Rightarrow> bool"
  order_by_title :: "from_row list \<Rightarrow> from_row list"
  lookup_order :: "(int \<times> category_row) list \<Rightarrow> (int \<times> category_row) list"

definition from_rows :: "bool \<Rightarrow> store \<Rightarrow> from_row list" where
  "from_rows join_bc s =
     (if join_bc
      then [(fst r, snd r, Some bc). r \<leftarrow> joined_books s, bc \<leftarrow> book_categories s, b_id (fst r) = fst bc]
      else map (\<lambda>r. (fst r, snd r, None)) (joined_books s))"

fun cond_index :: "cond \<Rightarrow> nat" where
  "cond_index (AuthorIdEq i) = i"
| "cond_index (CategoryIdEq i) = i"
| "cond_index (FullText i) = i"

fun cond_pred :: "fts \<Rightarrow> bool \<Rightarrow> cond \<Rightarrow> sql_value \<Rightarrow> db_error + (from_row \<Rightarrow> bool)" where
  "cond_pred fts False (CategoryIdEq i) v = Inl UndefinedTable"
| "cond_pred fts j w VNull = Inr (\<lambda>r. False)"
| "cond_pred fts j (AuthorIdEq i) (VInt v) =
     (if id_in_range v then Inr (\<lambda>r. b_author_id (fst r) = v) else Inl DataError)"
| "cond_pred fts j (CategoryIdEq i) (VInt v) =
     (if id_in_range v
      then Inr (\<lambda>r. case snd (snd r) of None \<Rightarrow> False | Some bc \<Rightarrow> snd bc = v)
      else Inl DataError)"
| "cond_pred fts j (FullText i) (VText q) =
     Inr (\<lambda>r. fts (b_title (fst r) @ '' '' @ b_description (fst r)) q)"
| "cond_pred fts j w v = Inl DataError"

fun resolve :: "fts \<Rightarrow> bool \<Rightarrow> sql_value list \<Rightarrow> cond list \<Rightarrow> db_error + (from_row \<Rightarrow> bool)" where
  "resolve fts j params [] = Inr (\<lambda>r. True)"
| "resolve fts j params (w # ws) =
     (case param params (cond_index w) of
        Inl e \<Rightarrow> Inl e
      | Inr v \<Rightarrow>
          (case cond_pred fts j w v of
             Inl e \<Rightarrow> Inl e
           | Inr p \<Rightarrow>
               (case resolve fts j params ws of
                  Inl e \<Rightarrow> Inl e
                | Inr q \<Rightarrow> Inr (\<lambda>r. p r \<and> q r))))"

definition select_books ::
  "engine \<Rightarrow> bool \<Rightarrow> cond list \<Rightarrow> int \<Rightarrow> int \<Rightarrow> sql_value list \<Rightarrow> store
     \<Rightarrow> db_error + book_joined list" where
  "select_books e join_bc wheres limit_lit offset_lit params s =
     (case resolve (full_text e) join_bc params wheres of
        Inl err \<Rightarrow> Inl err
      | Inr p \<Rightarrow>
          (if bigint_in_range limit_lit \<and> bigint_in_range offset_lit
           then (if limit_lit < 0 \<or> offset_lit < 0 then Inl InvalidRowCount
                 else Inr (map (\<lambda>r. joined_row (fst r) (fst (snd r)))
                             (take (nat limit_lit) (drop (nat offset_lit)
                                (order_by_title e (filter p (from_rows join_bc s)))))))
           else Inl NumericValueOutOfRange))"

fun fetch ::
  "engine \<Rightarrow> statement \<Rightarrow> sql_value list \<Rightarrow> conn \<Rightarrow> (db_error + book_joined list) \<times> conn" where
  "fetch e (SelectBooks join_bc wheres limit_lit offset_lit) params c =
     (select_books e join_bc wheres limit_lit offset_lit params (tables c),
      issue (SelectBooks join_bc wheres limit_lit offset_lit) params c)"
| "fetch e q params c = (Inl DataError, issue q params c)"

subsection \<open>\<open>Database.list_books\<close>: attaching the categories\<close>

text \<open>
  \<open>FROM book_categories bc JOIN categories c ON bc.category_id = c.id
  WHERE bc.book_id = ANY($1::int[])\<close>: the rows of the join, and the lookup result, which
  is those rows in the order the engine returns them.
\<close>

definition categories_of_books :: "int list \<Rightarrow> store \<Rightarrow> (int \<times> category_row) list" where
  "categories_of_books book_ids s =
     [(fst bc, k). bc \<leftarrow> book_categories s, k \<leftarrow> categories s,
                   snd bc = c_id k \<and> fst bc \<in> set book_ids]"

definition lookup_rows :: "engine \<Rightarrow> int list \<Rightarrow> store \<Rightarrow> (int \<times> category_row) list" where
  "lookup_rows e book_ids s = lookup_order e (categories_of_books book_ids s)"

definition group_categories :: "(int \<times> category_row) list \<Rightarrow> (int \<rightharpoonup> category_row list)" where
  "group_categories cats =
     fold (\<lambda>cr d. d(fst cr \<mapsto> (case d (fst cr) of None \<Rightarrow> [] | Some l \<Rightarrow> l) @ [snd cr]))
       cats Map.empty"

definition attach ::
  "(int \<rightharpoonup> category_row list) \<Rightarrow> book_joined \<Rightarrow> book_out" where
  "attach d row = with_categories row (case d (bj_id row) of None \<Rightarrow> [] | Some l \<Rightarrow> l)"

definition db_list_books ::
  "engine \<Rightarrow> int option \<Rightarrow> int option \<Rightarrow> string option \<Rightarrow> int \<Rightarrow> int \<Rightarrow> conn
     \<Rightarrow> (db_error + book_out list) \<times> conn" where
  "db_list_books e author_id category_id search limit offset c =
     (case build_list_query author_id category_id search limit offset of
        (sql, params) \<Rightarrow>
          (case fetch e sql params c of
             (Inl err, c1) \<Rightarrow> (Inl err, c1)
           | (Inr rows, c1) \<Rightarrow>
               (let book_ids = map bj_id rows
                in if book_ids \<noteq> []
                   then (let c2 = issue SelectCategoriesOfBooks [VIntArray book_ids] c1;
                             d = group_categories (lookup_rows e book_ids (tables c2))
                         in (Inr (map (attach d) rows), c2))
                   else (Inr [], c1))))"

section \<open>The endpoints of \<open>main.py\<close>\<close>

text \<open>
  An endpoint returns its response or the error the caller sees: an \<open>HTTPException\<close>
  raised by the endpoint itself, or the storage error that escaped it.
\<close>

datatype http_error = HTTPException nat string | Unhandled db_error


record book_update_in =
  up_title :: "string option"
  up_description :: "string option"
  up_price :: "price option"
  up_author_id :: "int option"
  up_published_date :: "date option"
  up_category_ids :: "int list option"

text \<open>
  \<open>for cid in category_ids: if not await db.get_category_by_id(cid): raise ...\<close>; the
  result is the first id that has no category, if any.
\<close>

fun check_categories :: "int list \<Rightarrow> conn \<Rightarrow> int option \<times> conn" where
  "check_categories [] c = (None, c)"
| "check_categories (cid # cids) c =
     (case db_get_category_by_id cid c of
        (None, c') \<Rightarrow> (Some cid, c')
      | (Some k, c') \<Rightarrow> check_categories cids c')"


definition get_book :: "int \<Rightarrow> conn \<Rightarrow> (http_error + book_out) \<times> conn" where
  "get_book book_id c =
     (case db_get_book_by_id book_id c of
        (None, c') \<Rightarrow> (Inl (HTTPException 404 ''Book not found''), c')
      | (Some book, c') \<Rightarrow> (Inr book, c'))"

text \<open>
  \<open>if book_update.author_id and not await db.get_author_by_id(...)\<close>: the author is looked
  up only when the id is neither \<open>None\<close> nor \<open>0\<close>; \<open>if book_update.category_ids:\<close> checks
  the categories only of a non-empty list.
\<close>

definition invalid_author :: "int option \<Rightarrow> conn \<Rightarrow> bool \<times> conn" where
  "invalid_author author_id c =
     (case author_id of
        None \<Rightarrow> (False, c)
      | Some a \<Rightarrow>
          (if a = 0 then (False, c)
           else (case db_get_author_by_id a c of (r, c') \<Rightarrow> (r = None, c'))))"

definition invalid_category :: "int list option \<Rightarrow> conn \<Rightarrow> int option \<times> conn" where
  "invalid_category category_ids c =
     (case category_ids of
        None \<Rightarrow> (None, c)
      | Some cids \<Rightarrow> (if cids = [] then (None, c) else check_categories cids c))"

definition update_book ::
  "book_reference \<Rightarrow> int \<Rightarrow> book_update_in \<Rightarrow> conn \<Rightarrow> (http_error + book_out option) \<times> conn" where
  "update_book sch book_id book_update c =
     (case invalid_author (up_author_id book_update) c of
        (True, c1) \<Rightarrow> (Inl (HTTPException 400 ''Invalid author_id''), c1)
      | (False, c1) \<Rightarrow>
          (case invalid_category (up_category_ids book_update) c1 of
             (Some cid, c2) \<Rightarrow> (Inl (HTTPException 400 (''Invalid category_id '' @ show_int cid)), c2)
           | (None, c2) \<Rightarrow>
               (case db_update_book sch book_id (up_title book_update) (up_description book_update)
                       (up_price book_update) (up_author_id book_update)
                       (up_published_date book_update) (up_category_ids book_update) c2 of
                  (Inl e, c3) \<Rightarrow> (Inl (Unhandled e), c3)
                | (Inr None, c3) \<Rightarrow> (Inl (HTTPException 404 ''Book not found''), c3)
                | (Inr (Some b), c3) \<Rightarrow>
                    (case db_get_book_by_id book_id c3 of (r, c4) \<Rightarrow> (Inr r, c4)))))"

definition delete_book :: "book_reference \<Rightarrow> int \<Rightarrow> conn \<Rightarrow> (http_error + unit) \<times> conn" where
  "delete_book sch book_id c =
     (case db_delete_book sch book_id c of
        (Inl e, c') \<Rightarrow> (Inl (Unhandled e), c')
      | (Inr ok, c') \<Rightarrow>
          (if ok then (Inr (), c') else (Inl (HTTPException 404 ''Book not found''), c')))"

section \<open>What the operations are measured against\<close>

text \<open>Keys and references of the tables, as a property of a store.\<close>

definition wf_store :: "store \<Rightarrow> bool" where
  "wf_store s =
     (distinct (map a_id (authors s))
      \<and> list_all (\<lambda>b. b_author_id b \<in> set (map a_id (authors s))) (books s)
      \<and> distinct (book_categories s))"

text \<open>The statements that write.\<close>

fun is_write :: "statement \<Rightarrow> bool" where
  "is_write InsertBook = True"
| "is_write InsertBookCategory = True"
| "is_write (UpdateBooks up_fields idx) = True"
| "is_write DeleteBookCategories = True"
| "is_write DeleteBook = True"
| "is_write InsertLog = True"
| "is_write q = False"

definition writes :: "conn \<Rightarrow> statement list" where
  "writes c = filter is_write (map fst (issued c))"

text \<open>
  The partial update in the spec's words: a supplied field takes the supplied value,
  a field that is not supplied keeps its stored value.
\<close>

definition spec_patch ::
  "string option \<Rightarrow> string option \<Rightarrow> price option \<Rightarrow> int option \<Rightarrow> date option
     \<Rightarrow> book_row \<Rightarrow> book_row" where
  "spec_patch title description price author_id published_date b =
     \<lparr>b_id = b_id b,
      b_title = (case title of None \<Rightarrow> b_title b | Some t \<Rightarrow> t),
      b_description = (case description of None \<Rightarrow> b_description b | Some d \<Rightarrow> d),
      b_price = (case price of None \<Rightarrow> b_price b | Some p \<Rightarrow> p),
      b_author_id = (case author_id of None \<Rightarrow> b_author_id b | Some a \<Rightarrow> a),
      b_published_date = (case published_date of None \<Rightarrow> b_published_date b | Some d \<Rightarrow> d)\<rparr>"

text \<open>
  The predicate of a listing in the spec's words: a book is listed when it satisfies
  every active predicate. A search phrase that is \<open>None\<close> or empty is not active.
\<close>

definition spec_matches ::
  "fts \<Rightarrow> int option \<Rightarrow> int option \<Rightarrow> string option \<Rightarrow> store \<Rightarrow> book_row \<Rightarrow> bool" where
  "spec_matches fts author_id category_id search s b =
     ((case author_id of None \<Rightarrow> True | Some a \<Rightarrow> b_author_id b = a)
      \<and> (case category_id of None \<Rightarrow> True | Some k \<Rightarrow> (b_id b, k) \<in> set (book_categories s))
      \<and> (case search of
            None \<Rightarrow> True
          | Some q \<Rightarrow> (if q = [] then True else fts (b_title b @ '' '' @ b_description b) q)))"

definition book_of :: "book_out \<Rightarrow> book_row" where
  "book_of r =
     \<lparr>b_id = bo_id r, b_title = bo_title r, b_description = bo_description r,
      b_price = bo_price r, b_author_id = bo_author_id r,
      b_published_date = bo_published_date r\<rparr>"

text \<open>
  The categories associated with a book, one for each association row of the book;
  the listing is measured against them as a multiset.
\<close>

definition spec_categories :: "int \<Rightarrow> store \<Rightarrow> category_row list" where
  "spec_categories book_id s =
     [k. bc \<leftarrow> book_categories s, k \<leftarrow> categories s, snd bc = c_id k \<and> fst bc = book_id]"

text \<open>
  What an engine owes: \<open>ORDER BY b.title\<close> returns the rows it is given, each once, in
  ascending title order under the engine's collation; a query without \<open>ORDER BY\<close>
  returns its rows, each once, in some order.
\<close>

definition orders_by_title :: "engine \<Rightarrow> bool" where
  "orders_by_title e =
     (\<forall>rows. mset (order_by_title e rows) = mset rows
           \<and> sorted_wrt (title_le e) (map (\<lambda>r. b_title (fst r)) (order_by_title e rows)))"

definition permutes_lookup :: "engine \<Rightarrow> bool" where
  "permutes_lookup e = (\<forall>rows. mset (lookup_order e rows) = mset rows)"

subsection \<open>A small store for concrete runs\<close>

definition ex_store :: store where
  "ex_store =
     \<lparr>authors = [\<lparr>a_id = 1, a_name = ''Ann'', a_bio = None\<rparr>,
                 \<lparr>a_id = 2, a_name = ''Bob'', a_bio = Some ''historian''\<rparr>],
      categories = [\<lparr>c_id = 1, c_name = ''Fantasy''\<rparr>, \<lparr>c_id = 2, c_name = ''History''\<rparr>],
      books = [\<lparr>b_id = 1, b_title = ''Winter'', b_description = ''The dragons'',
                 b_price = 10, b_author_id = 1, b_published_date = (2020, 1, 2)\<rparr>,
               \<lparr>b_id = 2, b_title = ''Autumn'', b_description = ''Rome'',
                 b_price = 12, b_author_id = 2, b_published_date = (2021, 3, 4)\<rparr>],
      book_categories = [(1, 2), (1, 1)],
      users = [\<lparr>u_id = 1, u_username = ''reader'', u_email = ''reader@example.org''\<rparr>],
      logs = []\<rparr>"

definition ex_conn :: conn where
  "ex_conn = \<lparr>tables = ex_store, book_id_seq = 3, issued = []\<rparr>"

definition ex_fts :: fts where
  "ex_fts doc q = (q = ''dragons'' \<and> doc = ''Winter The dragons'')"

text \<open>
  An engine for concrete runs: titles compared as character lists, equal titles kept in
  the order given, lookup rows by category id.
\<close>

definition ex_engine :: engine where
  "ex_engine =
     \<lparr>full_text = ex_fts, title_le = (\<le>),
      order_by_title = sort_key (\<lambda>r. b_title (fst r)),
      lookup_order = sort_key (\<lambda>r. c_id (snd r))\<rparr>"

text \<open>The update request with every field omitted.\<close>

definition no_update :: book_update_in where
  "no_update = \<lparr>up_title = None, up_description = None, up_price = None, up_author_id = None,
                 up_published_date = None, up_category_ids = None\<rparr>"


text \<open>The author row a book references (one exists in a well-formed store).\<close>

definition author_of :: "store \<Rightarrow> book_row \<Rightarrow> author_row" where
  "author_of s b = the (find (\<lambda>a. a_id a = b_author_id b) (authors s))"

section \<open>Basic facts\<close>

lemma tables_issue [simp]: "tables (issue q ps c) = tables c"
  by (simp add: issue_def)

lemma issued_issue [simp]: "issued (issue q ps c) = issued c @ [(q, ps)]"
  by (simp add: issue_def)

lemma seq_issue [simp]: "book_id_seq (issue q ps c) = book_id_seq c"
  by (simp add: issue_def)

lemma tables_on_tables [simp]: "tables (on_tables f c) = f (tables c)"
  by (simp add: on_tables_def)

lemma issued_on_tables [simp]: "issued (on_tables f c) = issued c"
  by (simp add: on_tables_def)

lemma show_nat_0: "show_nat 0 = ''0''"
  by (simp add: show_nat.simps digit_char_def)

lemma show_nat_1: "show_nat (Suc 0) = ''1''"
  by (simp add: show_nat.simps digit_char_def)

lemma count_key_distinct:
  "distinct (map f xs) \<Longrightarrow> length (filter (\<lambda>x. f x = k) xs) = (if k \<in> set (map f xs) then 1 else 0)"
  by (induction xs) auto

lemma filter_absent: "k \<notin> set (map f xs) \<Longrightarrow> filter (\<lambda>x. f x \<noteq> k) xs = xs"
  by (induction xs) auto

lemma absent_after_filter: "k \<notin> set (map f (filter (\<lambda>x. f x \<noteq> k) xs))"
  by (induction xs) auto

section \<open>Deleting a book\<close>

text \<open>
  Claim C7 (as amended). With \<open>books.id\<close> a key and an id within the integer range of
  the column, \<open>delete_book\<close> returns whether a row was removed: true exactly when the id was
  present, and then the row is gone; on an id that is not present it returns false and
  leaves every table as it was; a second delete of the same id returns false; the
  endpoint turns false into "Book not found" (404), true into success.
\<close>

theorem delete_book_reports_removal:
  assumes "distinct (map b_id (books (tables c)))" and "id_in_range k"
  shows "fst (db_delete_book sch k c) = Inr (k \<in> set (map b_id (books (tables c))))
       \<and> books (tables (snd (db_delete_book sch k c))) = filter (\<lambda>b. b_id b \<noteq> k) (books (tables c))
       \<and> (k \<notin> set (map b_id (books (tables c))) \<longrightarrow>
            tables (snd (db_delete_book sch k c)) = tables c)
       \<and> fst (db_delete_book sch k (snd (db_delete_book sch k c))) = Inr False
       \<and> fst (delete_book sch k c) =
            (if k \<in> set (map b_id (books (tables c))) then Inr ()
             else Inl (HTTPException 404 ''Book not found''))"
proof -
  let ?n = "length (filter (\<lambda>b. b_id b = k) (books (tables c)))"
  have n: "?n = (if k \<in> set (map b_id (books (tables c))) then 1 else 0)"
    using assms(1) by (rule count_key_distinct)
  have first: "fst (db_delete_book sch k c) = Inr (k \<in> set (map b_id (books (tables c))))"
    using assms(2)
    by (simp add: db_delete_book_def execute_delete_book_def Let_def n show_nat_0 show_nat_1)
  have rows: "books (tables (snd (db_delete_book sch k c))) = filter (\<lambda>b. b_id b \<noteq> k) (books (tables c))"
    using assms(2) by (simp add: db_delete_book_def execute_delete_book_def Let_def)
  have same: "tables (snd (db_delete_book sch k c)) = tables c"
    if "k \<notin> set (map b_id (books (tables c)))"
    using that assms(2)
    by (simp add: db_delete_book_def execute_delete_book_def Let_def n filter_absent)
  have gone: "k \<notin> set (map b_id (books (tables (snd (db_delete_book sch k c)))))"
    unfolding rows by (rule absent_after_filter)
  have "length (filter (\<lambda>b. b_id b = k) (books (tables (snd (db_delete_book sch k c))))) = 0"
    using gone by (auto simp: filter_empty_conv)
  then have second: "fst (db_delete_book sch k (snd (db_delete_book sch k c))) = Inr False"
    using assms(2)
    by (simp add: db_delete_book_def [of sch k "snd (db_delete_book sch k c)"]
        execute_delete_book_def Let_def show_nat_0)
  have endpoint: "fst (delete_book sch k c) =
            (if k \<in> set (map b_id (books (tables c))) then Inr ()
             else Inl (HTTPException 404 ''Book not found''))"
    using first by (cases "db_delete_book sch k c") (auto simp: delete_book_def)
  from first rows same second endpoint show ?thesis by blast
qed

theorem delete_book_reports_removal_witness:
  "distinct (map b_id (books (tables ex_conn)))
   \<and> id_in_range 1
   \<and> fst (db_delete_book Cascade 1 ex_conn) = Inr True
   \<and> map b_id (books (tables (snd (db_delete_book Cascade 1 ex_conn)))) = [2]
   \<and> fst (db_delete_book Cascade 1 (snd (db_delete_book Cascade 1 ex_conn))) = Inr False
   \<and> fst (delete_book Cascade 1 ex_conn) = Inr ()
   \<and> id_in_range 7
   \<and> 7 \<notin> set (map b_id (books (tables ex_conn)))
   \<and> fst (db_delete_book Unconstrained 7 ex_conn) = Inr False
   \<and> tables (snd (db_delete_book Unconstrained 7 ex_conn)) = tables ex_conn
   \<and> fst (delete_book Unconstrained 7 ex_conn) = Inl (HTTPException 404 ''Book not found'')"
proof -
  have d: "distinct (map b_id (books (tables ex_conn)))"
    by (simp add: ex_conn_def ex_store_def)
  have r1: "id_in_range 1" and r7: "id_in_range 7"
    by (simp_all add: id_in_range_def)
  from delete_book_reports_removal [OF d r1, of Cascade]
    delete_book_reports_removal [OF d r7, of Unconstrained] d r1 r7
  show ?thesis
    by (simp add: ex_conn_def ex_store_def)
qed

text \<open>
  No book has id \<open>2\<^sup>6\<^sup>3\<close>, which no integer column holds: the delete raises instead of
  answering "not found".
\<close>

theorem delete_book_reports_removal_counterexample:
  "9223372036854775808 \<notin> set (map b_id (books (tables ex_conn)))
   \<and> fst (db_delete_book Cascade 9223372036854775808 ex_conn) = Inl DataError
   \<and> fst (delete_book Cascade 9223372036854775808 ex_conn) = Inl (Unhandled DataError)"
  by (simp add: ex_conn_def ex_store_def delete_book_def db_delete_book_def
      execute_delete_book_def id_in_range_def Let_def)

section \<open>Updating a book\<close>

lemma join_str_empty: "list_all (\<lambda>x. x \<noteq> []) xs \<Longrightarrow> (join_str sep xs = []) = (xs = [])"
  by (induction sep xs rule: join_str.induct) auto

lemma column_name_nonempty: "column_name col \<noteq> []"
  by (cases col) auto

lemma set_part_empty: "(set_part up_fields = []) = (up_fields = [])"
proof -
  have "list_all (\<lambda>x. x \<noteq> []) (map render_assign up_fields)"
    by (simp add: list_all_iff render_assign_def column_name_nonempty)
  then show ?thesis
    unfolding set_part_def by (simp add: join_str_empty)
qed

lemma build_update_sound:
  assumes "build_update title description price author_id published_date = (up_fields, params, idx)"
  shows "param (params @ [VInt k]) idx = Inr (VInt k)"
    and "apply_assigns (params @ [VInt k]) up_fields b
           = Inr (spec_patch title description price author_id published_date b)"
    and "VNull \<notin> set params"
  using assms
  by (cases title; cases description; cases price; cases author_id; cases published_date;
      cases b; auto simp: build_update_def add_field_def param_def spec_patch_def)+

lemma spec_patch_id: "b_id (spec_patch title description price author_id published_date b) = b_id b"
  by (simp add: spec_patch_def)

lemma spec_patch_none: "spec_patch None None None None None b = b"
  by (simp add: spec_patch_def)

lemma update_rows_result:
  assumes "\<And>b. apply_assigns params up_fields b = Inr (f b)"
    and "update_rows author_ids params up_fields k rows = Inr rows'"
  shows "rows' = map (\<lambda>b. if b_id b = k then f b else b) rows"
  using assms(2)
proof (induction rows arbitrary: rows')
  case Nil
  then show ?case by simp
next
  case (Cons r rs)
  then show ?case
    by (auto simp: assms(1) split: if_splits sum.splits)
qed

lemma build_update_empty:
  assumes "build_update title description price author_id published_date = ([], params, idx)"
  shows "spec_patch title description price author_id published_date b = b"
  using assms
  by (cases title; cases description; cases price; cases author_id; cases published_date;
      simp add: build_update_def add_field_def spec_patch_def)

lemma update_core_ok:
  assumes "update_core k title description price author_id published_date c = (Inr u, c1)"
  shows "tables c1 = (tables c)\<lparr>books :=
           map (\<lambda>b. if b_id b = k then spec_patch title description price author_id published_date b else b)
             (books (tables c))\<rparr>"
proof -
  obtain up_fields params idx
    where built: "build_update title description price author_id published_date = (up_fields, params, idx)"
    by (cases "build_update title description price author_id published_date") auto
  show ?thesis
  proof (cases "up_fields = []")
    case True
    with built have "\<And>b. spec_patch title description price author_id published_date b = b"
      by (simp add: build_update_empty)
    moreover have "c1 = c"
      using assms built True by (simp add: update_core_def set_part_empty)
    ultimately show ?thesis by (simp cong: if_cong)
  next
    case False
    let ?ps = "params @ [VInt k]"
    have run: "update_books up_fields idx ?ps c = (Inr u, c1)"
      using assms built False by (simp add: update_core_def set_part_empty)
    have p: "param ?ps idx = Inr (VInt k)"
      using built by (rule build_update_sound(1))
    obtain rows where rows: "update_rows (map a_id (authors (tables c))) ?ps up_fields k (books (tables c)) = Inr rows"
      and c1: "c1 = on_tables (\<lambda>s. s\<lparr>books := rows\<rparr>) (issue (UpdateBooks up_fields idx) ?ps c)"
      using run by (auto simp: update_books_def Let_def p split: sum.splits)
    have "rows = map (\<lambda>b. if b_id b = k then spec_patch title description price author_id published_date b else b)
             (books (tables c))"
      using build_update_sound(2) [OF built] rows by (rule update_rows_result)
    with c1 show ?thesis by simp
  qed
qed

lemma update_core_tables_error:
  "update_core k title description price author_id published_date c = (Inl e, c1) \<Longrightarrow> tables c1 = tables c"
  by (auto simp: update_core_def update_books_def Let_def split: prod.splits if_splits sum.splits sql_value.splits)

lemma insert_book_category_frame:
  "insert_book_category sch k cid c = (r, c') \<Longrightarrow>
     tables c' = (tables c)\<lparr>book_categories := book_categories (tables c')\<rparr>"
  by (auto simp: insert_book_category_def Let_def split: if_splits)

lemma attach_categories_frame:
  "attach_categories sch k cids c = (r, c') \<Longrightarrow>
     tables c' = (tables c)\<lparr>book_categories := book_categories (tables c')\<rparr>"
proof (induction cids arbitrary: c)
  case Nil
  then show ?case by auto
next
  case (Cons cid cids)
  obtain r1 c1 where step: "insert_book_category sch k cid c = (r1, c1)"
    by (cases "insert_book_category sch k cid c") auto
  have f1: "tables c1 = (tables c)\<lparr>book_categories := book_categories (tables c1)\<rparr>"
    using step by (rule insert_book_category_frame)
  show ?case
  proof (cases r1)
    case (Inl e)
    with Cons.prems step have "c' = c1" by simp
    with f1 show ?thesis by simp
  next
    case (Inr u)
    with Cons.prems step have "attach_categories sch k cids c1 = (r, c')" by simp
    then have "tables c' = (tables c1)\<lparr>book_categories := book_categories (tables c')\<rparr>"
      by (rule Cons.IH)
    with f1 show ?thesis by (metis store.update_convs(4) store.surjective)
  qed
qed

lemma transaction_error: "transaction body c = (Inl e, c') \<Longrightarrow> tables c' = tables c"
  by (auto simp: transaction_def split: prod.splits sum.splits)

lemma transaction_ok: "transaction body c = (Inr r, c') \<Longrightarrow> body c = (Inr r, c')"
  by (auto simp: transaction_def split: prod.splits sum.splits)

lemma tables_delete_book_categories:
  "tables (delete_book_categories k c)
     = (tables c)\<lparr>book_categories := filter (\<lambda>bc. fst bc \<noteq> k) (book_categories (tables c))\<rparr>"
  by (simp add: delete_book_categories_def)

lemma update_categories_frame:
  assumes "update_categories sch k category_ids c = (r, c')"
  shows "tables c' = (tables c)\<lparr>book_categories := book_categories (tables c')\<rparr>"
proof (cases category_ids)
  case None
  with assms show ?thesis by (simp add: update_categories_def)
next
  case (Some cids)
  with assms have "attach_categories sch k cids (delete_book_categories k c) = (r, c')"
    by (simp add: update_categories_def)
  then have "tables c' = (tables (delete_book_categories k c))\<lparr>book_categories := book_categories (tables c')\<rparr>"
    by (rule attach_categories_frame)
  then show ?thesis by (simp add: tables_delete_book_categories)
qed

lemma update_categories_none: "update_categories sch k None c = (Inr (), c)"
  by (simp add: update_categories_def)

lemma update_categories_empty:
  "update_categories sch k (Some []) c = (Inr (), delete_book_categories k c)"
  by (simp add: update_categories_def)

lemma db_update_book_error:
  "db_update_book sch k title description price author_id published_date category_ids c = (Inl e, c')
     \<Longrightarrow> tables c' = tables c"
  unfolding db_update_book_def by (rule transaction_error)

lemma db_update_book_ok:
  assumes "db_update_book sch k title description price author_id published_date category_ids c = (Inr r, c')"
  obtains c1 c2 u1 u2 where
    "update_core k title description price author_id published_date c = (Inr u1, c1)"
    "update_categories sch k category_ids c1 = (Inr u2, c2)"
    "r = find (\<lambda>b. b_id b = k) (books (tables c2))"
    "c' = issue SelectBookById [VInt k] c2"
proof -
  let ?body = "\<lambda>c. case update_core k title description price author_id published_date c of
         (Inl e, c1) \<Rightarrow> (Inl e, c1)
       | (Inr _, c1) \<Rightarrow>
           (case update_categories sch k category_ids c1 of
              (Inl e, c2) \<Rightarrow> (Inl e, c2)
            | (Inr _, c2) \<Rightarrow>
                (case select_book_by_id k c2 of (row, c3) \<Rightarrow> (Inr row, c3)))"
  have "?body c = (Inr r, c')"
    using assms unfolding db_update_book_def by (rule transaction_ok)
  then show ?thesis
    using that
    by (auto simp: select_book_by_id_def split: prod.splits sum.splits)
qed

text \<open>
  Claim C6. A successful \<open>update_book\<close> changes in the rows with the given id exactly the
  core fields that were supplied, each to the supplied value; a field passed as \<open>None\<close>
  keeps its stored value, every other book row and every author, category, user and log
  row is as before, and no bound parameter of the \<open>UPDATE\<close> is null, so a stored field is
  never set to null.
\<close>

theorem update_book_sets_supplied_fields:
  assumes "db_update_book sch k title description price author_id published_date category_ids c = (Inr r, c')"
  shows "books (tables c') =
           map (\<lambda>b. if b_id b = k
                    then spec_patch title description price author_id published_date b else b)
             (books (tables c))
       \<and> authors (tables c') = authors (tables c)
       \<and> categories (tables c') = categories (tables c)
       \<and> users (tables c') = users (tables c)
       \<and> logs (tables c') = logs (tables c)
       \<and> VNull \<notin> set (fst (snd (build_update title description price author_id published_date)))"
proof -
  from assms obtain c1 c2 u1 u2 where
    core: "update_core k title description price author_id published_date c = (Inr u1, c1)" and
    cats: "update_categories sch k category_ids c1 = (Inr u2, c2)" and
    c': "c' = issue SelectBookById [VInt k] c2"
    by (rule db_update_book_ok)
  have t1: "tables c1 = (tables c)\<lparr>books :=
           map (\<lambda>b. if b_id b = k then spec_patch title description price author_id published_date b else b)
             (books (tables c))\<rparr>"
    using core by (rule update_core_ok)
  have t2: "tables c2 = (tables c1)\<lparr>book_categories := book_categories (tables c2)\<rparr>"
    using cats by (rule update_categories_frame)
  have "tables c' = tables c2" by (simp add: c')
  then have t: "tables c' = (tables c)\<lparr>books :=
           map (\<lambda>b. if b_id b = k then spec_patch title description price author_id published_date b else b)
             (books (tables c)), book_categories := book_categories (tables c2)\<rparr>"
    using t1 t2 by simp
  obtain up_fields params idx where
    built: "build_update title description price author_id published_date = (up_fields, params, idx)"
    by (cases "build_update title description price author_id published_date") auto
  have nonnull: "VNull \<notin> set (fst (snd (build_update title description price author_id published_date)))"
    using build_update_sound(3) [OF built] by (simp add: built)
  have "books (tables c') =
           map (\<lambda>b. if b_id b = k
                    then spec_patch title description price author_id published_date b else b)
             (books (tables c))"
    by (subst t) simp
  moreover have "authors (tables c') = authors (tables c)" by (subst t) simp
  moreover have "categories (tables c') = categories (tables c)" by (subst t) simp
  moreover have "users (tables c') = users (tables c)" by (subst t) simp
  moreover have "logs (tables c') = logs (tables c)" by (subst t) simp
  ultimately show ?thesis using nonnull by blast
qed

theorem update_book_sets_supplied_fields_witness:
  "db_update_book Cascade 1 (Some ''Spring'') None (Some 7) None None None ex_conn
     = (Inr (Some \<lparr>b_id = 1, b_title = ''Spring'', b_description = ''The dragons'',
                    b_price = 7, b_author_id = 1, b_published_date = (2020, 1, 2)\<rparr>),
        snd (db_update_book Cascade 1 (Some ''Spring'') None (Some 7) None None None ex_conn))
   \<and> books (tables (snd (db_update_book Cascade 1 (Some ''Spring'') None (Some 7) None None None ex_conn)))
       = [\<lparr>b_id = 1, b_title = ''Spring'', b_description = ''The dragons'',
            b_price = 7, b_author_id = 1, b_published_date = (2020, 1, 2)\<rparr>,
          \<lparr>b_id = 2, b_title = ''Autumn'', b_description = ''Rome'',
            b_price = 12, b_author_id = 2, b_published_date = (2021, 3, 4)\<rparr>]"
proof -
  have run: "db_update_book Cascade 1 (Some ''Spring'') None (Some 7) None None None ex_conn
     = (Inr (Some \<lparr>b_id = 1, b_title = ''Spring'', b_description = ''The dragons'',
                    b_price = 7, b_author_id = 1, b_published_date = (2020, 1, 2)\<rparr>),
        snd (db_update_book Cascade 1 (Some ''Spring'') None (Some 7) None None None ex_conn))"
    by code_simp
  from update_book_sets_supplied_fields [OF run] run show ?thesis
    by (simp add: ex_conn_def ex_store_def spec_patch_def)
qed

lemma build_update_none: "build_update None None None None None = ([], [], 1)"
  by (simp add: build_update_def add_field_def)

lemma update_core_none: "update_core k None None None None None c = (Inr (), c)"
  by (simp add: update_core_def build_update_none set_part_def)

lemma fst_get_book_issue:
  "fst (db_get_book_by_id k (issue q ps c)) = fst (db_get_book_by_id k c)"
  by (simp add: db_get_book_by_id_def Let_def split: list.splits)

lemma tables_get_book [simp]: "tables (snd (db_get_book_by_id k c)) = tables c"
  by (simp add: db_get_book_by_id_def Let_def split: list.splits)

lemma writes_issue: "writes (issue q ps c) = (if is_write q then writes c @ [q] else writes c)"
  by (simp add: writes_def)

lemma writes_get_book [simp]: "writes (snd (db_get_book_by_id k c)) = writes c"
  by (simp add: db_get_book_by_id_def Let_def writes_issue split: list.splits)

text \<open>
  Claim C10. On an existing book, \<open>update_book\<close> with every core field and
  \<open>category_ids\<close> omitted issues the final \<open>SELECT\<close> and nothing else (no \<open>UPDATE\<close>), returns
  the stored row, and leaves every table as it was; the endpoint returns the book as
  \<open>get_book_by_id\<close> showed it before the call and issues no writing statement.
\<close>

theorem update_book_all_omitted_is_identity:
  assumes "find (\<lambda>b. b_id b = k) (books (tables c)) = Some b"
  shows "db_update_book sch k None None None None None None c
           = (Inr (Some b), issue SelectBookById [VInt k] c)
       \<and> fst (update_book sch k no_update c) = Inr (fst (db_get_book_by_id k c))
       \<and> tables (snd (update_book sch k no_update c)) = tables c
       \<and> writes (snd (update_book sch k no_update c)) = writes c"
proof -
  have db: "db_update_book sch k None None None None None None c
           = (Inr (Some b), issue SelectBookById [VInt k] c)"
    using assms
    by (simp add: db_update_book_def transaction_def update_core_none update_categories_def
        select_book_by_id_def)
  have ep: "update_book sch k no_update c
           = (Inr (fst (db_get_book_by_id k (issue SelectBookById [VInt k] c))),
              snd (db_get_book_by_id k (issue SelectBookById [VInt k] c)))"
    by (simp add: update_book_def no_update_def invalid_author_def invalid_category_def db
        split: prod.splits)
  have "fst (update_book sch k no_update c) = Inr (fst (db_get_book_by_id k c))"
    by (simp add: ep fst_get_book_issue)
  moreover have "tables (snd (update_book sch k no_update c)) = tables c"
    by (simp add: ep)
  moreover have "writes (snd (update_book sch k no_update c)) = writes c"
    by (simp add: ep writes_issue)
  ultimately show ?thesis using db by blast
qed

theorem update_book_all_omitted_is_identity_witness:
  "find (\<lambda>b. b_id b = 1) (books (tables ex_conn)) = Some (hd (books ex_store))
   \<and> db_update_book Cascade 1 None None None None None None ex_conn
           = (Inr (Some (hd (books ex_store))), issue SelectBookById [VInt 1] ex_conn)
   \<and> tables (snd (update_book Cascade 1 no_update ex_conn)) = ex_store
   \<and> writes (snd (update_book Cascade 1 no_update ex_conn)) = []"
  using update_book_all_omitted_is_identity [of 1 ex_conn "hd (books ex_store)" Cascade]
  by (simp add: ex_conn_def ex_store_def writes_def)

section \<open>The update endpoint\<close>

lemma find_none_ids: "(find (\<lambda>x. f x = k) xs = None) = (k \<notin> set (map f xs))"
  by (auto simp: find_None_iff)

lemma get_author_frame [simp]:
  "tables (snd (db_get_author_by_id a c)) = tables c"
  "writes (snd (db_get_author_by_id a c)) = writes c"
  by (simp_all add: db_get_author_by_id_def writes_issue)

lemma get_category_frame [simp]:
  "tables (snd (db_get_category_by_id a c)) = tables c"
  "writes (snd (db_get_category_by_id a c)) = writes c"
  by (simp_all add: db_get_category_by_id_def writes_issue)

lemma check_categories_frame:
  "tables (snd (check_categories cids c)) = tables c \<and> writes (snd (check_categories cids c)) = writes c"
proof (induction cids arbitrary: c)
  case Nil
  then show ?case by simp
next
  case (Cons cid cids)
  show ?case
  proof (cases "db_get_category_by_id cid c")
    case (Pair r c')
    then have "tables c' = tables c" "writes c' = writes c"
      using get_category_frame [of cid c] by simp_all
    with Pair Cons.IH [of c'] show ?thesis
      by (cases r) simp_all
  qed
qed

lemma check_categories_result:
  "fst (check_categories cids c) = find (\<lambda>cid. cid \<notin> set (map c_id (categories (tables c)))) cids"
proof (induction cids arbitrary: c)
  case Nil
  then show ?case by simp
next
  case (Cons cid cids)
  show ?case
  proof (cases "db_get_category_by_id cid c")
    case (Pair r c')
    then have t: "tables c' = tables c"
      using get_category_frame(1) [of cid c] by simp
    have r: "r = find (\<lambda>k. c_id k = cid) (categories (tables c))"
      using Pair by (simp add: db_get_category_by_id_def)
    show ?thesis
    proof (cases r)
      case None
      with r have "cid \<notin> set (map c_id (categories (tables c)))"
        using find_none_ids [of c_id cid "categories (tables c)"] by simp
      with Pair None show ?thesis by simp
    next
      case (Some row)
      with r have "cid \<in> set (map c_id (categories (tables c)))"
        using find_none_ids [of c_id cid "categories (tables c)"] by auto
      with Pair Some Cons.IH [of c'] t show ?thesis by simp
    qed
  qed
qed

lemma invalid_author_frame:
  "tables (snd (invalid_author a c)) = tables c \<and> writes (snd (invalid_author a c)) = writes c"
  by (cases a) (auto simp: invalid_author_def split: prod.splits,
      (metis get_author_frame snd_conv)+)

lemma invalid_author_result:
  "fst (invalid_author a c) =
     (case a of None \<Rightarrow> False
      | Some x \<Rightarrow> (if x = 0 then False else x \<notin> set (map a_id (authors (tables c)))))"
  by (cases a)
     (auto simp: invalid_author_def db_get_author_by_id_def find_none_ids [symmetric]
           simp del: set_map split: prod.splits)

lemma invalid_category_frame:
  "tables (snd (invalid_category cids c)) = tables c \<and> writes (snd (invalid_category cids c)) = writes c"
  by (cases cids) (simp_all add: invalid_category_def check_categories_frame)

lemma invalid_category_result:
  "fst (invalid_category cids c) =
     (case cids of None \<Rightarrow> None
      | Some xs \<Rightarrow> find (\<lambda>cid. cid \<notin> set (map c_id (categories (tables c)))) xs)"
  by (cases cids) (simp_all add: invalid_category_def check_categories_result)

lemma update_book_unfold:
  "update_book sch k up c =
     (let c1 = snd (invalid_author (up_author_id up) c);
          ic = invalid_category (up_category_ids up) c1;
          db = db_update_book sch k (up_title up) (up_description up) (up_price up)
                 (up_author_id up) (up_published_date up) (up_category_ids up) (snd ic)
      in if fst (invalid_author (up_author_id up) c)
         then (Inl (HTTPException 400 ''Invalid author_id''), c1)
         else (case fst ic of
                 Some cid \<Rightarrow> (Inl (HTTPException 400 (''Invalid category_id '' @ show_int cid)), snd ic)
               | None \<Rightarrow>
                  (case fst db of
                     Inl e \<Rightarrow> (Inl (Unhandled e), snd db)
                   | Inr None \<Rightarrow> (Inl (HTTPException 404 ''Book not found''), snd db)
                   | Inr (Some b) \<Rightarrow>
                       (Inr (fst (db_get_book_by_id k (snd db))), snd (db_get_book_by_id k (snd db))))))"
  by (simp add: update_book_def Let_def split: prod.splits bool.splits option.splits sum.splits)

lemma update_book_ok:
  assumes "update_book sch k up c = (Inr r, c')"
  obtains c2 c3 row where
    "tables c2 = tables c"
    "db_update_book sch k (up_title up) (up_description up) (up_price up) (up_author_id up)
       (up_published_date up) (up_category_ids up) c2 = (Inr (Some row), c3)"
    "r = fst (db_get_book_by_id k c3)"
    "tables c' = tables c3"
proof -
  let ?c1 = "snd (invalid_author (up_author_id up) c)"
  let ?c2 = "snd (invalid_category (up_category_ids up) ?c1)"
  let ?db = "db_update_book sch k (up_title up) (up_description up) (up_price up) (up_author_id up)
       (up_published_date up) (up_category_ids up) ?c2"
  have t: "tables ?c2 = tables c"
    by (simp add: invalid_category_frame invalid_author_frame)
  from assms obtain row where "fst ?db = Inr (Some row)"
    and "r = fst (db_get_book_by_id k (snd ?db))" and "c' = snd (db_get_book_by_id k (snd ?db))"
    unfolding update_book_unfold Let_def
    by (auto split: if_splits sum.splits option.splits)
  then show ?thesis
    using that [of ?c2 row "snd ?db"] t by (simp add: prod_eq_iff)
qed

lemma get_book_result:
  "fst (db_get_book_by_id k c) =
     (case filter (\<lambda>r. b_id (fst r) = k) (joined_books (tables c)) of
        [] \<Rightarrow> None
      | row # rest \<Rightarrow>
          Some (with_categories (joined_row (fst row) (snd row)) (categories_of_book k (tables c))))"
  by (simp add: db_get_book_by_id_def Let_def split: list.splits)

lemma get_book_categories:
  "fst (db_get_book_by_id k c) = Some b \<Longrightarrow> bo_categories b = categories_of_book k (tables c)"
  by (auto simp: get_book_result with_categories_def split: list.splits)

lemma categories_of_book_none:
  "filter (\<lambda>bc. fst bc = k) (book_categories s) = [] \<Longrightarrow> categories_of_book k s = []"
  by (auto simp: categories_of_book_def filter_empty_conv)

lemma filter_filter_neg: "filter (\<lambda>x. f x = k) (filter (\<lambda>x. f x \<noteq> k) xs) = []"
  by (induction xs) auto

lemma with_categories_eq:
  "(with_categories r cs = with_categories r cs') = (cs = cs')"
  by (auto simp: with_categories_def)

lemma get_book_cong:
  "tables c = tables c' \<Longrightarrow> fst (db_get_book_by_id k c) = fst (db_get_book_by_id k c')"
  by (simp add: get_book_result split: list.splits)

lemma update_book_tables:
  assumes "update_book sch k up c = (Inr r, c')"
  shows "books (tables c') =
           map (\<lambda>b. if b_id b = k
                    then spec_patch (up_title up) (up_description up) (up_price up)
                           (up_author_id up) (up_published_date up) b
                    else b) (books (tables c))"
    and "authors (tables c') = authors (tables c)"
    and "categories (tables c') = categories (tables c)"
    and "up_category_ids up = None \<Longrightarrow> book_categories (tables c') = book_categories (tables c)"
    and "up_category_ids up = Some [] \<Longrightarrow>
           book_categories (tables c') = filter (\<lambda>bc. fst bc \<noteq> k) (book_categories (tables c))"
    and "r = fst (db_get_book_by_id k c')"
proof -
  from assms obtain c2 c3 row where
    t2: "tables c2 = tables c" and
    db: "db_update_book sch k (up_title up) (up_description up) (up_price up) (up_author_id up)
       (up_published_date up) (up_category_ids up) c2 = (Inr (Some row), c3)" and
    r: "r = fst (db_get_book_by_id k c3)" and
    t3: "tables c' = tables c3"
    by (rule update_book_ok)
  from db obtain c4 c5 u1 u2 where
    core: "update_core k (up_title up) (up_description up) (up_price up) (up_author_id up)
             (up_published_date up) c2 = (Inr u1, c4)" and
    cats: "update_categories sch k (up_category_ids up) c4 = (Inr u2, c5)" and
    c3: "c3 = issue SelectBookById [VInt k] c5"
    by (rule db_update_book_ok)
  have t4: "tables c4 = (tables c)\<lparr>books :=
           map (\<lambda>b. if b_id b = k
                    then spec_patch (up_title up) (up_description up) (up_price up)
                           (up_author_id up) (up_published_date up) b
                    else b) (books (tables c))\<rparr>"
    using update_core_ok [OF core] t2 by simp
  have t5: "tables c5 = (tables c4)\<lparr>book_categories := book_categories (tables c5)\<rparr>"
    using cats by (rule update_categories_frame)
  have t': "tables c' = tables c5" by (simp add: t3 c3)
  show "books (tables c') =
           map (\<lambda>b. if b_id b = k
                    then spec_patch (up_title up) (up_description up) (up_price up)
                           (up_author_id up) (up_published_date up) b
                    else b) (books (tables c))"
    unfolding t' by (subst t5) (simp add: t4)
  show "authors (tables c') = authors (tables c)"
    unfolding t' by (subst t5) (simp add: t4)
  show "categories (tables c') = categories (tables c)"
    unfolding t' by (subst t5) (simp add: t4)
  show "book_categories (tables c') = book_categories (tables c)" if "up_category_ids up = None"
  proof -
    from cats that have "c5 = c4" by (simp add: update_categories_none)
    then show ?thesis by (simp add: t' t4)
  qed
  show "book_categories (tables c') = filter (\<lambda>bc. fst bc \<noteq> k) (book_categories (tables c))"
    if "up_category_ids up = Some []"
  proof -
    from cats that have "c5 = delete_book_categories k c4" by (simp add: update_categories_empty)
    then show ?thesis by (simp add: t' tables_delete_book_categories t4)
  qed
  show "r = fst (db_get_book_by_id k c')"
    unfolding r using t3 by (intro get_book_cong) simp
qed

lemma joined_books_cong:
  "books s = books s' \<Longrightarrow> authors s = authors s' \<Longrightarrow> joined_books s = joined_books s'"
  by (simp add: joined_books_def)

lemma categories_of_book_cong:
  "categories s = categories s' \<Longrightarrow> book_categories s = book_categories s' \<Longrightarrow>
     categories_of_book k s = categories_of_book k s'"
  by (simp add: categories_of_book_def)

text \<open>
  Claim C2 (as amended). Take two successful updates of the same book that differ only
  in \<open>category_ids\<close>. With the empty list no association row of the book is left and the
  returned book has an empty category list; with \<open>None\<close> the association rows are as
  before and the returned book has the categories it had. The two returned books differ
  exactly when the book had a category before the call.
\<close>

theorem update_book_empty_list_versus_omitted:
  assumes "update_book sch k (up\<lparr>up_category_ids := Some []\<rparr>) c = (Inr (Some b1), c1)"
    and "update_book sch k (up\<lparr>up_category_ids := None\<rparr>) c = (Inr (Some b2), c2)"
  shows "filter (\<lambda>bc. fst bc = k) (book_categories (tables c1)) = []
       \<and> book_categories (tables c2) = book_categories (tables c)
       \<and> bo_categories b1 = []
       \<and> bo_categories b2 = categories_of_book k (tables c)
       \<and> (b1 = b2) = (categories_of_book k (tables c) = [])"
proof -
  note u1 = update_book_tables [OF assms(1)]
  note u2 = update_book_tables [OF assms(2)]
  have bc1: "book_categories (tables c1) = filter (\<lambda>bc. fst bc \<noteq> k) (book_categories (tables c))"
    using u1(5) by simp
  have gone: "filter (\<lambda>bc. fst bc = k) (book_categories (tables c1)) = []"
    unfolding bc1 by (rule filter_filter_neg)
  have bc2: "book_categories (tables c2) = book_categories (tables c)"
    using u2(4) by simp
  have cats1: "categories_of_book k (tables c1) = []"
    using gone by (rule categories_of_book_none)
  have cats2: "categories_of_book k (tables c2) = categories_of_book k (tables c)"
    using u2(3) bc2 by (rule categories_of_book_cong)
  have jb: "joined_books (tables c1) = joined_books (tables c2)"
    using u1(1,2) u2(1,2) by (intro joined_books_cong) simp_all
  have g1: "fst (db_get_book_by_id k c1) = Some b1" using u1(6) by simp
  have g2: "fst (db_get_book_by_id k c2) = Some b2" using u2(6) by simp
  have b1: "bo_categories b1 = []"
    using get_book_categories [OF g1] cats1 by simp
  have b2: "bo_categories b2 = categories_of_book k (tables c)"
    using get_book_categories [OF g2] cats2 by simp
  have "(b1 = b2) = (categories_of_book k (tables c) = [])"
  proof (cases "filter (\<lambda>r. b_id (fst r) = k) (joined_books (tables c2))")
    case Nil
    with g2 show ?thesis by (simp add: get_book_result)
  next
    case (Cons row rest)
    with g1 g2 jb cats1 cats2
    have "b1 = with_categories (joined_row (fst row) (snd row)) []"
      and "b2 = with_categories (joined_row (fst row) (snd row)) (categories_of_book k (tables c))"
      by (simp_all add: get_book_result)
    then show ?thesis by (auto simp: with_categories_eq)
  qed
  with gone bc2 b1 b2 show ?thesis by blast
qed

theorem update_book_empty_list_versus_omitted_witness:
  "update_book Cascade 1 (no_update\<lparr>up_category_ids := Some []\<rparr>) ex_conn
     = (Inr (Some (with_categories (joined_row (hd (books ex_store)) (hd (authors ex_store))) [])),
        snd (update_book Cascade 1 (no_update\<lparr>up_category_ids := Some []\<rparr>) ex_conn))
   \<and> update_book Cascade 1 (no_update\<lparr>up_category_ids := None\<rparr>) ex_conn
     = (Inr (Some (with_categories (joined_row (hd (books ex_store)) (hd (authors ex_store)))
                    (categories ex_store))),
        snd (update_book Cascade 1 (no_update\<lparr>up_category_ids := None\<rparr>) ex_conn))
   \<and> book_categories (tables (snd (update_book Cascade 1 (no_update\<lparr>up_category_ids := Some []\<rparr>) ex_conn))) = []
   \<and> book_categories (tables (snd (update_book Cascade 1 (no_update\<lparr>up_category_ids := None\<rparr>) ex_conn)))
       = [(1, 2), (1, 1)]
   \<and> categories_of_book 1 (tables ex_conn) = categories ex_store"
proof -
  have r1: "update_book Cascade 1 (no_update\<lparr>up_category_ids := Some []\<rparr>) ex_conn
     = (Inr (Some (with_categories (joined_row (hd (books ex_store)) (hd (authors ex_store))) [])),
        snd (update_book Cascade 1 (no_update\<lparr>up_category_ids := Some []\<rparr>) ex_conn))"
    by code_simp
  have r2: "update_book Cascade 1 (no_update\<lparr>up_category_ids := None\<rparr>) ex_conn
     = (Inr (Some (with_categories (joined_row (hd (books ex_store)) (hd (authors ex_store)))
                    (categories ex_store))),
        snd (update_book Cascade 1 (no_update\<lparr>up_category_ids := None\<rparr>) ex_conn))"
    by code_simp
  have r3: "book_categories (tables (snd (update_book Cascade 1 (no_update\<lparr>up_category_ids := Some []\<rparr>) ex_conn))) = []"
    by code_simp
  have r4: "categories_of_book 1 (tables ex_conn) = categories ex_store"
    by code_simp
  from update_book_empty_list_versus_omitted [OF r1 r2] r1 r2 r3 r4 show ?thesis
    by (simp add: ex_conn_def ex_store_def)
qed

text \<open>
  Book 2 of the example store has no category: after either call \<open>get_book\<close> returns the
  same book, and both calls return the same response.
\<close>

theorem update_book_empty_list_versus_omitted_counterexample:
  "2 \<in> set (map b_id (books (tables ex_conn)))
   \<and> fst (get_book 2 (snd (update_book Cascade 2 (no_update\<lparr>up_category_ids := Some []\<rparr>) ex_conn)))
     = fst (get_book 2 (snd (update_book Cascade 2 (no_update\<lparr>up_category_ids := None\<rparr>) ex_conn)))
   \<and> fst (update_book Cascade 2 (no_update\<lparr>up_category_ids := Some []\<rparr>) ex_conn)
     = fst (update_book Cascade 2 (no_update\<lparr>up_category_ids := None\<rparr>) ex_conn)"
  by code_simp

lemma update_rows_absent:
  "k \<notin> set (map b_id rows) \<Longrightarrow> update_rows author_ids params up_fields k rows = Inr rows"
  by (induction rows) auto

lemma update_core_absent:
  assumes "k \<notin> set (map b_id (books (tables c)))"
  shows "fst (update_core k title description price author_id published_date c) = Inr ()"
    and "tables (snd (update_core k title description price author_id published_date c)) = tables c"
proof -
  obtain up_fields params idx
    where built: "build_update title description price author_id published_date = (up_fields, params, idx)"
    by (cases "build_update title description price author_id published_date") auto
  have p: "param (params @ [VInt k]) idx = Inr (VInt k)"
    using built by (rule build_update_sound(1))
  have rows: "update_rows (map a_id (authors (tables c))) (params @ [VInt k]) up_fields k (books (tables c))
                = Inr (books (tables c))"
    using assms by (rule update_rows_absent)
  show "fst (update_core k title description price author_id published_date c) = Inr ()"
    by (simp add: update_core_def built update_books_def Let_def p rows)
  show "tables (snd (update_core k title description price author_id published_date c)) = tables c"
    by (simp add: update_core_def built update_books_def Let_def p rows)
qed

lemma db_update_book_absent:
  assumes "k \<notin> set (map b_id (books (tables c)))"
    and "category_ids = None
         \<or> category_ids = Some [] \<and> filter (\<lambda>bc. fst bc = k) (book_categories (tables c)) = []"
  shows "fst (db_update_book sch k title description price author_id published_date category_ids c) = Inr None"
    and "tables (snd (db_update_book sch k title description price author_id published_date category_ids c)) = tables c"
proof -
  let ?core = "update_core k title description price author_id published_date c"
  have core: "?core = (Inr (), snd ?core)"
    using update_core_absent(1) [OF assms(1), of title description price author_id published_date]
    by (simp add: prod_eq_iff)
  have t1: "tables (snd ?core) = tables c"
    using assms(1) by (rule update_core_absent(2))
  have keep: "filter (\<lambda>bc. fst bc \<noteq> k) (book_categories (tables c)) = book_categories (tables c)"
    if "filter (\<lambda>bc. fst bc = k) (book_categories (tables c)) = []"
    using that by (auto simp: filter_empty_conv filter_id_conv)
  obtain c2 where cats: "update_categories sch k category_ids (snd ?core) = (Inr (), c2)"
    and t2: "tables c2 = tables c"
    using assms(2)
    by (auto simp: update_categories_none update_categories_empty tables_delete_book_categories t1 keep)
  have absent: "find (\<lambda>b. b_id b = k) (books (tables c)) = None"
    using assms(1) find_none_ids [of b_id k "books (tables c)"] by simp
  have run: "db_update_book sch k title description price author_id published_date category_ids c
               = (Inr None, issue SelectBookById [VInt k] c2)"
    unfolding db_update_book_def transaction_def
    by (subst core) (simp add: cats select_book_by_id_def t2 absent)
  show "fst (db_update_book sch k title description price author_id published_date category_ids c) = Inr None"
    by (simp add: run)
  show "tables (snd (db_update_book sch k title description price author_id published_date category_ids c)) = tables c"
    by (simp add: run t2)
qed

text \<open>
  Claim C4 (as amended). For an id within the integer range of the id column that is
  not the id of a book: a supplied non-zero \<open>author_id\<close> (within the range) without an
  author is answered "Invalid author_id" (400); otherwise a supplied category id
  (within the range) without a category is answered "Invalid category_id" (400), for
  the first such id; otherwise, when \<open>category_ids\<close> is omitted, or is empty and no
  association row is stored under the id, the answer is "Book not found" (404). In each
  of these cases every table is as before.
\<close>

theorem update_book_unknown_id:
  assumes "k \<notin> set (map b_id (books (tables c)))" and "id_in_range k"
  shows "(\<forall>a. up_author_id up = Some a \<and> a \<noteq> 0 \<and> id_in_range a
             \<and> a \<notin> set (map a_id (authors (tables c))) \<longrightarrow>
            fst (update_book sch k up c) = Inl (HTTPException 400 ''Invalid author_id'')
            \<and> tables (snd (update_book sch k up c)) = tables c)
       \<and> (\<forall>cids cid. \<not> fst (invalid_author (up_author_id up) c)
             \<and> up_category_ids up = Some cids
             \<and> find (\<lambda>x. x \<notin> set (map c_id (categories (tables c)))) cids = Some cid
             \<and> id_in_range cid \<longrightarrow>
            fst (update_book sch k up c) = Inl (HTTPException 400 (''Invalid category_id '' @ show_int cid))
            \<and> tables (snd (update_book sch k up c)) = tables c)
       \<and> (\<not> fst (invalid_author (up_author_id up) c)
           \<and> (up_category_ids up = None
               \<or> up_category_ids up = Some []
                  \<and> filter (\<lambda>bc. fst bc = k) (book_categories (tables c)) = []) \<longrightarrow>
            fst (update_book sch k up c) = Inl (HTTPException 404 ''Book not found'')
            \<and> tables (snd (update_book sch k up c)) = tables c)"
proof (intro conjI allI impI)
  fix a
  assume "up_author_id up = Some a \<and> a \<noteq> 0 \<and> id_in_range a
             \<and> a \<notin> set (map a_id (authors (tables c)))"
  then have bad: "fst (invalid_author (up_author_id up) c)"
    by (simp add: invalid_author_result)
  show "fst (update_book sch k up c) = Inl (HTTPException 400 ''Invalid author_id'')"
    using bad by (simp add: update_book_unfold Let_def)
  show "tables (snd (update_book sch k up c)) = tables c"
    using bad by (simp add: update_book_unfold Let_def invalid_author_frame)
next
  fix cids cid
  assume h: "\<not> fst (invalid_author (up_author_id up) c)
             \<and> up_category_ids up = Some cids
             \<and> find (\<lambda>x. x \<notin> set (map c_id (categories (tables c)))) cids = Some cid
             \<and> id_in_range cid"
  let ?c1 = "snd (invalid_author (up_author_id up) c)"
  have t1: "tables ?c1 = tables c" by (simp add: invalid_author_frame)
  have bad: "fst (invalid_category (up_category_ids up) ?c1) = Some cid"
    using h by (simp add: invalid_category_result t1)
  show "fst (update_book sch k up c) = Inl (HTTPException 400 (''Invalid category_id '' @ show_int cid))"
    using h bad by (simp add: update_book_unfold Let_def)
  show "tables (snd (update_book sch k up c)) = tables c"
    using h bad by (simp add: update_book_unfold Let_def invalid_category_frame t1)
next
  assume h: "\<not> fst (invalid_author (up_author_id up) c)
           \<and> (up_category_ids up = None
               \<or> up_category_ids up = Some []
                  \<and> filter (\<lambda>bc. fst bc = k) (book_categories (tables c)) = [])"
  let ?c1 = "snd (invalid_author (up_author_id up) c)"
  let ?c2 = "snd (invalid_category (up_category_ids up) ?c1)"
  have t2: "tables ?c2 = tables c" by (simp add: invalid_author_frame invalid_category_frame)
  have ok: "fst (invalid_category (up_category_ids up) ?c1) = None"
    using h by (auto simp: invalid_category_result)
  have absent: "k \<notin> set (map b_id (books (tables ?c2)))"
    using assms t2 by simp
  have cond: "up_category_ids up = None
         \<or> up_category_ids up = Some [] \<and> filter (\<lambda>bc. fst bc = k) (book_categories (tables ?c2)) = []"
    using h t2 by auto
  note db = db_update_book_absent [OF absent cond, of sch "up_title up" "up_description up"
      "up_price up" "up_author_id up" "up_published_date up"]
  show "fst (update_book sch k up c) = Inl (HTTPException 404 ''Book not found'')"
    using h ok db(1) by (simp add: update_book_unfold Let_def)
  show "tables (snd (update_book sch k up c)) = tables c"
    using h ok db by (simp add: update_book_unfold Let_def t2)
qed

theorem update_book_unknown_id_witness:
  "99 \<notin> set (map b_id (books (tables ex_conn)))
   \<and> id_in_range 99 \<and> id_in_range 42 \<and> id_in_range 7
   \<and> fst (update_book Cascade 99 (no_update\<lparr>up_author_id := Some 42\<rparr>) ex_conn)
       = Inl (HTTPException 400 ''Invalid author_id'')
   \<and> tables (snd (update_book Cascade 99 (no_update\<lparr>up_author_id := Some 42\<rparr>) ex_conn)) = ex_store
   \<and> fst (update_book Cascade 99 (no_update\<lparr>up_category_ids := Some [1, 7]\<rparr>) ex_conn)
       = Inl (HTTPException 400 ''Invalid category_id 7'')
   \<and> tables (snd (update_book Cascade 99 (no_update\<lparr>up_category_ids := Some [1, 7]\<rparr>) ex_conn)) = ex_store
   \<and> fst (update_book Cascade 99 (no_update\<lparr>up_title := Some ''x'', up_category_ids := Some []\<rparr>) ex_conn)
       = Inl (HTTPException 404 ''Book not found'')
   \<and> tables (snd (update_book Cascade 99 (no_update\<lparr>up_title := Some ''x'', up_category_ids := Some []\<rparr>) ex_conn))
       = ex_store"
proof -
  have absent: "99 \<notin> set (map b_id (books (tables ex_conn)))"
    by (simp add: ex_conn_def ex_store_def)
  have t: "tables ex_conn = ex_store"
    by (simp add: ex_conn_def)
  have range: "id_in_range 99" "id_in_range 42" "id_in_range 7"
    by (simp_all add: id_in_range_def)
  have a: "up_author_id (no_update\<lparr>up_author_id := Some 42\<rparr>) = Some 42 \<and> (42::int) \<noteq> 0
           \<and> id_in_range 42
           \<and> 42 \<notin> set (map a_id (authors (tables ex_conn)))"
    by (simp add: ex_conn_def ex_store_def range)
  have b: "\<not> fst (invalid_author (up_author_id (no_update\<lparr>up_category_ids := Some [1, 7]\<rparr>)) ex_conn)
           \<and> up_category_ids (no_update\<lparr>up_category_ids := Some [1, 7]\<rparr>) = Some [1, 7]
           \<and> find (\<lambda>x. x \<notin> set (map c_id (categories (tables ex_conn)))) [1, 7] = Some 7
           \<and> id_in_range 7"
    by (simp add: ex_conn_def ex_store_def no_update_def invalid_author_def range)
  have d: "\<not> fst (invalid_author (up_author_id (no_update\<lparr>up_title := Some ''x'', up_category_ids := Some []\<rparr>)) ex_conn)
           \<and> (up_category_ids (no_update\<lparr>up_title := Some ''x'', up_category_ids := Some []\<rparr>) = None
               \<or> up_category_ids (no_update\<lparr>up_title := Some ''x'', up_category_ids := Some []\<rparr>) = Some []
                  \<and> filter (\<lambda>bc. fst bc = 99) (book_categories (tables ex_conn)) = [])"
    by (simp add: ex_conn_def ex_store_def no_update_def invalid_author_def)
  have seven: "show_int 7 = ''7''"
    by code_simp
  from update_book_unknown_id [OF absent range(1), of "no_update\<lparr>up_author_id := Some 42\<rparr>" Cascade] a
  have r1: "fst (update_book Cascade 99 (no_update\<lparr>up_author_id := Some 42\<rparr>) ex_conn)
             = Inl (HTTPException 400 ''Invalid author_id'')
          \<and> tables (snd (update_book Cascade 99 (no_update\<lparr>up_author_id := Some 42\<rparr>) ex_conn)) = ex_store"
    unfolding t by blast
  from update_book_unknown_id [OF absent range(1), of "no_update\<lparr>up_category_ids := Some [1, 7]\<rparr>" Cascade] b
  have r2: "fst (update_book Cascade 99 (no_update\<lparr>up_category_ids := Some [1, 7]\<rparr>) ex_conn)
             = Inl (HTTPException 400 (''Invalid category_id '' @ show_int 7))
          \<and> tables (snd (update_book Cascade 99 (no_update\<lparr>up_category_ids := Some [1, 7]\<rparr>) ex_conn)) = ex_store"
    unfolding t by blast
  from update_book_unknown_id [OF absent range(1),
      of "no_update\<lparr>up_title := Some ''x'', up_category_ids := Some []\<rparr>" Cascade] d
  have r3: "fst (update_book Cascade 99 (no_update\<lparr>up_title := Some ''x'', up_category_ids := Some []\<rparr>) ex_conn)
             = Inl (HTTPException 404 ''Book not found'')
          \<and> tables (snd (update_book Cascade 99 (no_update\<lparr>up_title := Some ''x'', up_category_ids := Some []\<rparr>) ex_conn))
             = ex_store"
    unfolding t by blast
  from absent range r1 r2 r3 show ?thesis
    by (simp add: seven)
qed

text \<open>
  No book has id 99 and no author has id 42: the update is answered "Invalid author_id",
  not "Book not found".
\<close>

theorem update_book_unknown_id_counterexample:
  "99 \<notin> set (map b_id (books (tables ex_conn)))
   \<and> fst (update_book Cascade 99 (no_update\<lparr>up_author_id := Some 42\<rparr>) ex_conn)
       = Inl (HTTPException 400 ''Invalid author_id'')
   \<and> fst (update_book Cascade 99 (no_update\<lparr>up_author_id := Some 42\<rparr>) ex_conn)
       \<noteq> Inl (HTTPException 404 ''Book not found'')"
  by code_simp

section \<open>Creating a book\<close>







section \<open>Listing books\<close>

text \<open>
  Claim C1. Two listings with the same filters present and the same filter value, one
  with limit 10 and offset 0, one with limit 20 and offset 5: the filter value is a bound
  parameter in both, but the two query texts differ, because \<open>limit\<close> and \<open>offset\<close> are
  written into the text and are not among the bound parameters.
\<close>

theorem list_books_limit_in_query_text:
  "sql_text (fst (build_list_query (Some 1) None None 10 0))
     = ''SELECT b.id, b.title, b.description, b.price, b.author_id, b.published_date, a.name as author_name FROM books b JOIN authors a ON b.author_id = a.id WHERE b.author_id=$1 ORDER BY b.title LIMIT 10 OFFSET 0''
   \<and> sql_text (fst (build_list_query (Some 1) None None 20 5))
     = ''SELECT b.id, b.title, b.description, b.price, b.author_id, b.published_date, a.name as author_name FROM books b JOIN authors a ON b.author_id = a.id WHERE b.author_id=$1 ORDER BY b.title LIMIT 20 OFFSET 5''
   \<and> sql_text (fst (build_list_query (Some 1) None None 10 0))
       \<noteq> sql_text (fst (build_list_query (Some 1) None None 20 5))
   \<and> snd (build_list_query (Some 1) None None 10 0) = [VInt 1]
   \<and> snd (build_list_query (Some 1) None None 20 5) = [VInt 1]
   \<and> hd (issued (snd (db_list_books ex_engine (Some 1) None None 10 0 ex_conn)))
       = build_list_query (Some 1) None None 10 0"
  by code_simp

lemma group_fold:
  "(case fold (\<lambda>cr d. d(fst cr \<mapsto> (case d (fst cr) of None \<Rightarrow> [] | Some l \<Rightarrow> l) @ [snd cr])) cats d0 k of
      None \<Rightarrow> [] | Some l \<Rightarrow> l)
   = (case d0 k of None \<Rightarrow> [] | Some l \<Rightarrow> l) @ map snd (filter (\<lambda>cr. fst cr = k) cats)"
  by (induction cats arbitrary: d0) auto

lemma group_categories_lookup:
  "(case group_categories cats k of None \<Rightarrow> [] | Some l \<Rightarrow> l)
     = map snd (filter (\<lambda>cr. fst cr = k) cats)"
  unfolding group_categories_def by (simp add: group_fold)

lemma categories_of_books_for:
  assumes "k \<in> set book_ids"
  shows "map snd (filter (\<lambda>cr. fst cr = k) (categories_of_books book_ids s)) = spec_categories k s"
proof -
  have inner: "map snd (filter (\<lambda>cr. fst cr = k)
                  (concat (map (\<lambda>cat. if snd bc = c_id cat \<and> fst bc \<in> set book_ids
                                       then [(fst bc, cat)] else []) cats)))
             = concat (map (\<lambda>cat. if snd bc = c_id cat \<and> fst bc = k then [cat] else []) cats)"
    for bc :: "int \<times> int" and cats :: "category_row list"
    using assms by (induction cats) auto
  have "map snd (filter (\<lambda>cr. fst cr = k)
           (concat (map (\<lambda>bc. concat (map (\<lambda>cat. if snd bc = c_id cat \<and> fst bc \<in> set book_ids
                                       then [(fst bc, cat)] else []) (categories s))) bcs)))
        = concat (map (\<lambda>bc. concat (map (\<lambda>cat. if snd bc = c_id cat \<and> fst bc = k then [cat] else [])
                                       (categories s))) bcs)"
    for bcs
    by (induction bcs) (simp_all add: inner)
  then show ?thesis
    by (simp add: categories_of_books_def spec_categories_def)
qed

lemma spec_categories_none:
  "filter (\<lambda>bc. fst bc = k) (book_categories s) = [] \<Longrightarrow> spec_categories k s = []"
  by (auto simp: spec_categories_def filter_empty_conv)

lemma attach_fields [simp]:
  "bo_id (attach d row) = bj_id row"
  "bo_categories (attach d row) = (case d (bj_id row) of None \<Rightarrow> [] | Some l \<Rightarrow> l)"
  by (simp_all add: attach_def with_categories_def)

lemma db_list_books_unfold:
  "db_list_books e author_id category_id search limit offset c =
     (let q = build_list_query author_id category_id search limit offset;
          f = fetch e (fst q) (snd q) c
      in case fst f of
           Inl err \<Rightarrow> (Inl err, snd f)
         | Inr rows \<Rightarrow>
             (if rows \<noteq> []
              then (Inr (map (attach (group_categories
                                (lookup_rows e (map bj_id rows) (tables (snd f))))) rows),
                    issue SelectCategoriesOfBooks [VIntArray (map bj_id rows)] (snd f))
              else (Inr [], snd f)))"
  by (auto simp: db_list_books_def Let_def split: prod.splits sum.splits)

lemma fetch_frame:
  "tables (snd (fetch e q ps c)) = tables c"
  "issued (snd (fetch e q ps c)) = issued c @ [(q, ps)]"
  by (cases q; simp)+

lemma lookup_rows_for:
  assumes "permutes_lookup e" and "k \<in> set book_ids"
  shows "mset (map snd (filter (\<lambda>r. fst r = k) (lookup_rows e book_ids s)))
           = mset (spec_categories k s)"
proof -
  have "mset (lookup_rows e book_ids s) = mset (categories_of_books book_ids s)"
    using assms(1) by (simp add: permutes_lookup_def lookup_rows_def)
  then have "mset (map snd (filter (\<lambda>r. fst r = k) (lookup_rows e book_ids s)))
           = mset (map snd (filter (\<lambda>r. fst r = k) (categories_of_books book_ids s)))"
    by (simp only: mset_map mset_filter)
  then show ?thesis
    by (simp only: categories_of_books_for [OF assms(2)])
qed

text \<open>
  Claim C8. In a successful listing every returned book carries the categories of its
  rows of the category lookup, in the order in which the lookup returned those rows;
  they are the categories associated with the book, so a book whose id has no
  association row carries the empty list; when no book is returned, the primary query is
  the only statement issued, and otherwise exactly one category lookup follows it, for
  the ids of the returned books.
\<close>

theorem list_books_attaches_categories:
  assumes "db_list_books e author_id category_id search limit offset c = (Inr out, c')"
    and "permutes_lookup e"
  shows "list_all (\<lambda>b. bo_categories b
                      = map snd (filter (\<lambda>r. fst r = bo_id b)
                                   (lookup_rows e (map bo_id out) (tables c)))) out
       \<and> list_all (\<lambda>b. mset (bo_categories b) = mset (spec_categories (bo_id b) (tables c))) out
       \<and> list_all (\<lambda>b. filter (\<lambda>bc. fst bc = bo_id b) (book_categories (tables c)) \<noteq> []
                        \<or> bo_categories b = []) out
       \<and> issued c' = issued c @
           (if out = [] then [build_list_query author_id category_id search limit offset]
            else [build_list_query author_id category_id search limit offset,
                  (SelectCategoriesOfBooks, [VIntArray (map bo_id out)])])"
proof -
  let ?q = "build_list_query author_id category_id search limit offset"
  let ?f = "fetch e (fst ?q) (snd ?q) c"
  from assms(1) obtain rows where rows: "fst ?f = Inr rows"
    unfolding db_list_books_unfold Let_def by (auto split: sum.splits)
  have t: "tables (snd ?f) = tables c" by (rule fetch_frame)
  have i: "issued (snd ?f) = issued c @ [?q]" by (simp add: fetch_frame)
  let ?d = "group_categories (lookup_rows e (map bj_id rows) (tables c))"
  have out: "out = map (attach ?d) rows"
    using assms(1) rows unfolding db_list_books_unfold Let_def by (auto simp: t split: if_splits)
  have c': "c' = (if rows \<noteq> [] then issue SelectCategoriesOfBooks [VIntArray (map bj_id rows)] (snd ?f)
                  else snd ?f)"
    using assms(1) rows unfolding db_list_books_unfold Let_def by (auto split: if_splits)
  have ids: "map bo_id out = map bj_id rows"
    unfolding out by simp
  have first: "list_all (\<lambda>b. bo_categories b
                      = map snd (filter (\<lambda>r. fst r = bo_id b)
                                   (lookup_rows e (map bo_id out) (tables c)))) out"
    unfolding ids unfolding out by (simp add: list_all_iff group_categories_lookup)
  have second: "list_all (\<lambda>b. mset (bo_categories b) = mset (spec_categories (bo_id b) (tables c))) out"
  proof -
    have "mset (bo_categories b) = mset (spec_categories (bo_id b) (tables c))" if "b \<in> set out" for b
    proof -
      from that have "bo_id b \<in> set (map bo_id out)" by simp
      then have "mset (map snd (filter (\<lambda>r. fst r = bo_id b) (lookup_rows e (map bo_id out) (tables c))))
                   = mset (spec_categories (bo_id b) (tables c))"
        using assms(2) by (intro lookup_rows_for)
      moreover have "bo_categories b
                      = map snd (filter (\<lambda>r. fst r = bo_id b)
                                   (lookup_rows e (map bo_id out) (tables c)))"
        using first that by (simp add: list_all_iff)
      ultimately show ?thesis by simp
    qed
    then show ?thesis by (simp add: list_all_iff)
  qed
  have third: "list_all (\<lambda>b. filter (\<lambda>bc. fst bc = bo_id b) (book_categories (tables c)) \<noteq> []
                        \<or> bo_categories b = []) out"
  proof -
    have "bo_categories b = []"
      if "b \<in> set out" and "filter (\<lambda>bc. fst bc = bo_id b) (book_categories (tables c)) = []" for b
    proof -
      from that(2) have "spec_categories (bo_id b) (tables c) = []"
        by (rule spec_categories_none)
      moreover from second that(1)
      have "mset (bo_categories b) = mset (spec_categories (bo_id b) (tables c))"
        by (simp add: list_all_iff)
      ultimately show ?thesis by simp
    qed
    then show ?thesis by (auto simp: list_all_iff)
  qed
  have fourth: "issued c' = issued c @
           (if out = [] then [?q] else [?q, (SelectCategoriesOfBooks, [VIntArray (map bo_id out)])])"
    unfolding ids unfolding out c' by (simp add: i)
  from first second third fourth show ?thesis by blast
qed

lemma ex_engine_permutes: "permutes_lookup ex_engine"
  by (simp add: permutes_lookup_def ex_engine_def)

lemma ex_engine_orders: "orders_by_title ex_engine"
  by (simp add: orders_by_title_def ex_engine_def)

theorem list_books_attaches_categories_witness:
  "permutes_lookup ex_engine
   \<and> map bo_categories (projr (fst (db_list_books ex_engine None None None 50 0 ex_conn)))
     = [[], [\<lparr>c_id = 1, c_name = ''Fantasy''\<rparr>, \<lparr>c_id = 2, c_name = ''History''\<rparr>]]
   \<and> issued (snd (db_list_books ex_engine None None None 50 0 ex_conn))
       = [(SelectBooks False [] 50 0, []), (SelectCategoriesOfBooks, [VIntArray [2, 1]])]
   \<and> fst (db_list_books ex_engine (Some 7) None None 50 0 ex_conn) = Inr []
   \<and> issued (snd (db_list_books ex_engine (Some 7) None None 50 0 ex_conn))
       = [(SelectBooks False [AuthorIdEq 1] 50 0, [VInt 7])]"
proof -
  let ?all = "db_list_books ex_engine None None None 50 0 ex_conn"
  let ?none = "db_list_books ex_engine (Some 7) None None 50 0 ex_conn"
  have f1: "fst ?all = Inr (projr (fst ?all))"
    by code_simp
  have f2: "fst ?none = Inr []"
    by code_simp
  have r1: "?all = (Inr (projr (fst ?all)), snd ?all)"
    using f1 by (simp add: prod_eq_iff)
  have r2: "?none = (Inr [], snd ?none)"
    using f2 by (simp add: prod_eq_iff)
  have ids: "map bo_id (projr (fst ?all)) = [2, 1]"
    by code_simp
  have nonempty: "projr (fst ?all) \<noteq> []"
    using ids by auto
  have looked: "map (\<lambda>k. map snd (filter (\<lambda>r. fst r = k) (lookup_rows ex_engine [2, 1] (tables ex_conn))))
                  [2, 1]
     = [[], [\<lparr>c_id = 1, c_name = ''Fantasy''\<rparr>, \<lparr>c_id = 2, c_name = ''History''\<rparr>]]"
    by code_simp
  have q1: "build_list_query None None None 50 0 = (SelectBooks False [] 50 0, [])"
    by code_simp
  have q2: "build_list_query (Some 7) None None 50 0 = (SelectBooks False [AuthorIdEq 1] 50 0, [VInt 7])"
    by code_simp
  have e: "issued ex_conn = []"
    by (simp add: ex_conn_def)
  note a = list_books_attaches_categories [OF r1 ex_engine_permutes]
  note b = list_books_attaches_categories [OF r2 ex_engine_permutes]
  from a have "map bo_categories (projr (fst ?all))
     = map (\<lambda>k. map snd (filter (\<lambda>r. fst r = k)
                            (lookup_rows ex_engine (map bo_id (projr (fst ?all))) (tables ex_conn))))
         (map bo_id (projr (fst ?all)))"
    by (simp add: list_all_iff)
  then have c1: "map bo_categories (projr (fst ?all))
     = [[], [\<lparr>c_id = 1, c_name = ''Fantasy''\<rparr>, \<lparr>c_id = 2, c_name = ''History''\<rparr>]]"
    unfolding ids looked .
  from a nonempty have c2: "issued (snd ?all)
       = [(SelectBooks False [] 50 0, []), (SelectCategoriesOfBooks, [VIntArray [2, 1]])]"
    by (simp add: ids q1 e)
  from b have c4: "issued (snd ?none) = [(SelectBooks False [AuthorIdEq 1] 50 0, [VInt 7])]"
    by (simp add: q2 e)
  from ex_engine_permutes c1 c2 f2 c4 show ?thesis by blast
qed

subsection \<open>What a listing returns\<close>

lemma build_list_query_resolves:
  assumes "case author_id of None \<Rightarrow> True | Some a \<Rightarrow> id_in_range a"
    and "case category_id of None \<Rightarrow> True | Some k \<Rightarrow> id_in_range k"
  shows "\<exists>wheres params p.
     build_list_query author_id category_id search limit offset
       = (SelectBooks (category_id \<noteq> None) wheres limit offset, params)
     \<and> resolve fts (category_id \<noteq> None) params wheres = Inr p
     \<and> (\<forall>b a bco. p (b, a, bco) =
           ((case author_id of None \<Rightarrow> True | Some x \<Rightarrow> b_author_id b = x)
            \<and> (case category_id of None \<Rightarrow> True
                | Some v \<Rightarrow> (case bco of None \<Rightarrow> False | Some bc \<Rightarrow> snd bc = v))
            \<and> (case search of None \<Rightarrow> True
                | Some q \<Rightarrow> (if q = [] then True else fts (b_title b @ '' '' @ b_description b) q))))"
  using assms
  by (cases author_id; cases category_id; cases search;
      simp add: build_list_query_def add_where_def truthy_str_def param_def)

lemma join_one_author:
  "distinct (map a_id as) \<Longrightarrow> k \<in> set (map a_id as) \<Longrightarrow>
     concat (map (\<lambda>a. if k = a_id a then [(b, a)] else []) as)
       = [(b, the (find (\<lambda>a. a_id a = k) as))]"
proof (induction as)
  case Nil
  then show ?case by simp
next
  case (Cons a as)
  show ?case
  proof (cases "a_id a = k")
    case True
    with Cons.prems have "k \<notin> set (map a_id as)" by auto
    then have "concat (map (\<lambda>a. if k = a_id a then [(b, a)] else []) as) = []"
      by (induction as) auto
    with True show ?thesis by auto
  next
    case False
    with Cons show ?thesis by auto
  qed
qed

lemma joined_books_wf:
  assumes "wf_store s"
  shows "joined_books s = map (\<lambda>b. (b, author_of s b)) (books s)"
proof -
  have d: "distinct (map a_id (authors s))" using assms by (simp add: wf_store_def)
  have "list_all (\<lambda>b. b_author_id b \<in> set (map a_id (authors s))) bs \<Longrightarrow>
        concat (map (\<lambda>b. concat (map (\<lambda>a. if b_author_id b = a_id a then [(b, a)] else [])
                             (authors s))) bs)
          = map (\<lambda>b. (b, author_of s b)) bs" for bs
    by (induction bs) (simp_all add: join_one_author [OF d] author_of_def)
  moreover have "list_all (\<lambda>b. b_author_id b \<in> set (map a_id (authors s))) (books s)"
    using assms by (simp add: wf_store_def)
  ultimately show ?thesis
    by (simp add: joined_books_def)
qed

lemma join_one_association:
  assumes "distinct (bcs :: (int \<times> int) list)"
  shows "filter (\<lambda>r. P \<and> (case snd (snd r) of None \<Rightarrow> False | Some bc \<Rightarrow> snd bc = v))
           (concat (map (\<lambda>bc. if i = fst bc then [(b, a, Some bc)] else []) bcs))
         = (if P \<and> (i, v) \<in> set bcs then [(b, a, Some (i, v))] else [])"
  using assms
proof (induction bcs)
  case Nil
  then show ?case by simp
next
  case (Cons bc bcs)
  have none: "filter (\<lambda>r. P \<and> (case snd (snd r) of None \<Rightarrow> False | Some bc \<Rightarrow> snd bc = v))
           (concat (map (\<lambda>bc. if i = fst bc then [(b, a, Some bc)] else []) xs)) = []"
    if "(i, v) \<notin> set xs" for xs :: "(int \<times> int) list"
    using that by (induction xs) auto
  show ?case
  proof (cases "bc = (i, v)")
    case True
    with Cons.prems have "(i, v) \<notin> set bcs" by auto
    with True none [of bcs] show ?thesis by auto
  next
    case False
    with Cons show ?thesis by (cases bc) auto
  qed
qed

lemma join_one_association_pred:
  assumes "distinct (bcs :: (int \<times> int) list)"
    and "\<And>bco. p (b, a, bco) = (P \<and> (case bco of None \<Rightarrow> False | Some bc \<Rightarrow> snd bc = v))"
  shows "filter p (concat (map (\<lambda>bc. if i = fst bc then [(b, a, Some bc)] else []) bcs))
         = (if P \<and> (i, v) \<in> set bcs then [(b, a, Some (i, v))] else [])"
proof -
  have "filter p (concat (map (\<lambda>bc. if i = fst bc then [(b, a, Some bc)] else []) bcs))
        = filter (\<lambda>r. P \<and> (case snd (snd r) of None \<Rightarrow> False | Some bc \<Rightarrow> snd bc = v))
            (concat (map (\<lambda>bc. if i = fst bc then [(b, a, Some bc)] else []) bcs))"
    by (rule filter_cong) (auto simp: assms(2) split: if_splits)
  then show ?thesis
    by (simp only: join_one_association [OF assms(1)])
qed

lemma from_rows_plain:
  assumes "wf_store s"
  shows "from_rows False s = map (\<lambda>b. (b, author_of s b, None)) (books s)"
  by (simp add: from_rows_def joined_books_wf [OF assms])

lemma filter_from_rows_joined:
  assumes "wf_store s"
    and "\<And>b a bco. p (b, a, bco) = (Pb b \<and> (case bco of None \<Rightarrow> False | Some bc \<Rightarrow> snd bc = v))"
  shows "filter p (from_rows True s)
         = map (\<lambda>b. (b, author_of s b, Some (b_id b, v)))
             (filter (\<lambda>b. Pb b \<and> (b_id b, v) \<in> set (book_categories s)) (books s))"
proof -
  have d: "distinct (book_categories s)" using assms(1) by (simp add: wf_store_def)
  have "filter p (concat (map (\<lambda>r. concat (map (\<lambda>bc. if b_id (fst r) = fst bc
                                                   then [(fst r, snd r, Some bc)] else [])
                                       (book_categories s)))
                          (map (\<lambda>b. (b, author_of s b)) bs)))
        = map (\<lambda>b. (b, author_of s b, Some (b_id b, v)))
             (filter (\<lambda>b. Pb b \<and> (b_id b, v) \<in> set (book_categories s)) bs)" for bs
    by (induction bs) (simp_all add: join_one_association_pred [OF d assms(2)])
  then show ?thesis
    by (simp add: from_rows_def joined_books_wf [OF assms(1)])
qed

lemma filter_from_rows:
  assumes "wf_store s"
    and "\<And>b a bco. p (b, a, bco) =
           ((case author_id of None \<Rightarrow> True | Some x \<Rightarrow> b_author_id b = x)
            \<and> (case category_id of None \<Rightarrow> True
                | Some v \<Rightarrow> (case bco of None \<Rightarrow> False | Some bc \<Rightarrow> snd bc = v))
            \<and> (case search of None \<Rightarrow> True
                | Some q \<Rightarrow> (if q = [] then True else fts (b_title b @ '' '' @ b_description b) q)))"
  shows "filter p (from_rows (category_id \<noteq> None) s)
         = map (\<lambda>b. (b, author_of s b,
                      (case category_id of None \<Rightarrow> None | Some v \<Rightarrow> Some (b_id b, v))))
             (filter (spec_matches fts author_id category_id search s) (books s))"
proof (cases category_id)
  case None
  have "filter p (map (\<lambda>b. (b, author_of s b, None)) (books s))
        = map (\<lambda>b. (b, author_of s b, None))
            (filter (spec_matches fts author_id category_id search s) (books s))"
    unfolding filter_map
    by (rule arg_cong [where f = "map _"], rule filter_cong)
       (simp_all add: assms(2) None spec_matches_def)
  then show ?thesis
    by (simp add: None from_rows_plain [OF assms(1)] del: not_None_eq)
next
  case (Some v)
  let ?Pb = "\<lambda>b. (case author_id of None \<Rightarrow> True | Some x \<Rightarrow> b_author_id b = x)
            \<and> (case search of None \<Rightarrow> True
                | Some q \<Rightarrow> (if q = [] then True else fts (b_title b @ '' '' @ b_description b) q))"
  have p: "p (b, a, bco) = (?Pb b \<and> (case bco of None \<Rightarrow> False | Some bc \<Rightarrow> snd bc = v))"
    for b a bco
    by (auto simp: assms(2) Some)
  have same: "filter (\<lambda>b. ?Pb b \<and> (b_id b, v) \<in> set (book_categories s)) (books s)
              = filter (spec_matches fts author_id category_id search s) (books s)"
    by (rule filter_cong) (auto simp: spec_matches_def Some)
  have joined: "filter p (from_rows True s)
         = map (\<lambda>b. (b, author_of s b, Some (b_id b, v)))
             (filter (\<lambda>b. ?Pb b \<and> (b_id b, v) \<in> set (book_categories s)) (books s))"
    using assms(1) p by (rule filter_from_rows_joined)
  show ?thesis
    unfolding Some using joined unfolding same Some by simp
qed

lemma book_of_attach: "book_of (attach d (joined_row b a)) = b"
  by (simp add: book_of_def attach_def with_categories_def joined_row_def)

lemma db_list_books_rows:
  assumes "fst (fetch e (fst (build_list_query author_id category_id search limit offset))
                  (snd (build_list_query author_id category_id search limit offset)) c) = Inr rows"
  shows "\<exists>d. fst (db_list_books e author_id category_id search limit offset c)
               = Inr (map (attach d) rows)"
  unfolding db_list_books_unfold Let_def using assms by (cases "rows = []") auto

text \<open>
  Claim C5 (as amended). In a store whose keys and references hold, with filter ids
  within the integer range of their columns and a limit and an offset that are not
  negative and fit 64 bits, \<open>list_books\<close> succeeds for every combination of the three
  optional filters. The books it returns are the books that satisfy all active
  predicates, put in ascending title order by the engine (books with equal titles in
  an order of the engine's choosing), with offset and limit applied to that ordered
  list; in particular every returned book satisfies every active predicate (with
  \<open>author_id = A\<close> its author is \<open>A\<close>) and the returned titles are ascending.
\<close>

theorem list_books_filters_orders_pages:
  assumes "wf_store (tables c)" and "orders_by_title e"
    and "0 \<le> limit" and "bigint_in_range limit"
    and "0 \<le> offset" and "bigint_in_range offset"
    and "case author_id of None \<Rightarrow> True | Some a \<Rightarrow> id_in_range a"
    and "case category_id of None \<Rightarrow> True | Some k \<Rightarrow> id_in_range k"
  shows "\<exists>out ordered.
           fst (db_list_books e author_id category_id search limit offset c) = Inr out
           \<and> mset ordered
               = mset (filter (spec_matches (full_text e) author_id category_id search (tables c))
                         (books (tables c)))
           \<and> sorted_wrt (title_le e) (map b_title ordered)
           \<and> map book_of out = take (nat limit) (drop (nat offset) ordered)
           \<and> list_all (\<lambda>b. spec_matches (full_text e) author_id category_id search (tables c)
                               (book_of b)) out
           \<and> sorted_wrt (title_le e) (map bo_title out)"
proof -
  let ?s = "tables c"
  let ?fts = "full_text e"
  let ?matching = "filter (spec_matches ?fts author_id category_id search ?s) (books ?s)"
  obtain wheres params p where
    q: "build_list_query author_id category_id search limit offset
          = (SelectBooks (category_id \<noteq> None) wheres limit offset, params)" and
    res: "resolve ?fts (category_id \<noteq> None) params wheres = Inr p" and
    p: "\<And>b a bco. p (b, a, bco) =
           ((case author_id of None \<Rightarrow> True | Some x \<Rightarrow> b_author_id b = x)
            \<and> (case category_id of None \<Rightarrow> True
                | Some v \<Rightarrow> (case bco of None \<Rightarrow> False | Some bc \<Rightarrow> snd bc = v))
            \<and> (case search of None \<Rightarrow> True
                | Some q \<Rightarrow> (if q = [] then True else ?fts (b_title b @ '' '' @ b_description b) q)))"
    using build_list_query_resolves [OF assms(7,8), of search limit offset ?fts] by blast
  let ?h = "\<lambda>b. (b, author_of ?s b,
                (case category_id of None \<Rightarrow> None | Some v \<Rightarrow> Some (b_id b, v)))"
  have f: "filter p (from_rows (category_id \<noteq> None) ?s) = map ?h ?matching"
    using assms(1) p by (rule filter_from_rows)
  let ?ord = "order_by_title e (map ?h ?matching)"
  let ?ordered = "map fst ?ord"
  have perm: "mset ?ord = mset (map ?h ?matching)"
    and asc: "sorted_wrt (title_le e) (map (\<lambda>r. b_title (fst r)) ?ord)"
    using assms(2) by (simp_all add: orders_by_title_def)
  have "mset ?ordered = image_mset fst (mset (map ?h ?matching))"
    by (simp only: mset_map perm)
  also have "\<dots> = mset (map (\<lambda>b. fst (?h b)) ?matching)"
    by (simp add: image_mset.compositionality o_def)
  finally have all: "mset ?ordered = mset ?matching"
    by simp
  have asc': "sorted_wrt (title_le e) (map b_title ?ordered)"
    using asc by (simp add: o_def)
  let ?page = "take (nat limit) (drop (nat offset) ?ord)"
  let ?rows = "map (\<lambda>r. joined_row (fst r) (fst (snd r))) ?page"
  have sel: "select_books e (category_id \<noteq> None) wheres limit offset params ?s = Inr ?rows"
    using assms(3-6)
    by (simp add: select_books_def res f del: not_None_eq)
  have "fst (fetch e (fst (build_list_query author_id category_id search limit offset))
                  (snd (build_list_query author_id category_id search limit offset)) c) = Inr ?rows"
    unfolding q by (simp add: sel del: not_None_eq)
  then obtain d where out: "fst (db_list_books e author_id category_id search limit offset c)
                         = Inr (map (attach d) ?rows)"
    using db_list_books_rows by blast
  let ?out = "map (attach d) ?rows"
  have page: "map book_of ?out = take (nat limit) (drop (nat offset) ?ordered)"
    by (simp add: o_def book_of_attach take_map drop_map)
  have "set (take (nat limit) (drop (nat offset) ?ordered)) \<subseteq> set ?ordered"
    using set_take_subset [of "nat limit"] set_drop_subset [of "nat offset"] by fastforce
  also have "set ?ordered = set ?matching"
    using all by (rule mset_eq_setD)
  finally have "list_all (spec_matches ?fts author_id category_id search ?s) (map book_of ?out)"
    unfolding page by (auto simp: list_all_iff)
  then have matches: "list_all (\<lambda>b. spec_matches ?fts author_id category_id search ?s (book_of b)) ?out"
    by (simp add: list_all_iff)
  have "sorted_wrt (title_le e) (take (nat limit) (drop (nat offset) (map b_title ?ordered)))"
    using asc' by (intro sorted_wrt_take sorted_wrt_drop)
  then have "sorted_wrt (title_le e) (map b_title (map book_of ?out))"
    by (simp only: page take_map drop_map)
  moreover have "map bo_title xs = map b_title (map book_of xs)" for xs
    by (simp add: book_of_def)
  ultimately have ordered: "sorted_wrt (title_le e) (map bo_title ?out)"
    by (simp only:)
  from out all asc' page matches ordered show ?thesis
    by blast
qed

theorem list_books_filters_orders_pages_witness:
  "wf_store (tables ex_conn) \<and> orders_by_title ex_engine
   \<and> bigint_in_range 50 \<and> bigint_in_range 0 \<and> id_in_range 2
   \<and> list_all (\<lambda>b. spec_matches (full_text ex_engine) None (Some 2) (Some ''dragons'')
                       (tables ex_conn) (book_of b))
        (projr (fst (db_list_books ex_engine None (Some 2) (Some ''dragons'') 50 0 ex_conn)))
   \<and> sorted_wrt (title_le ex_engine)
        (map bo_title (projr (fst (db_list_books ex_engine None (Some 2) (Some ''dragons'') 50 0 ex_conn))))
   \<and> map bo_title (projr (fst (db_list_books ex_engine None (Some 2) (Some ''dragons'') 50 0 ex_conn)))
       = [''Winter'']
   \<and> map bo_title (projr (fst (db_list_books ex_engine (Some 2) None None 50 0 ex_conn))) = [''Autumn'']
   \<and> map bo_title (projr (fst (db_list_books ex_engine None None None 50 0 ex_conn)))
       = [''Autumn'', ''Winter'']
   \<and> map bo_title (projr (fst (db_list_books ex_engine None None None 1 1 ex_conn))) = [''Winter'']"
proof -
  let ?run = "db_list_books ex_engine None (Some 2) (Some ''dragons'') 50 0 ex_conn"
  have wf: "wf_store (tables ex_conn)"
    by (simp add: wf_store_def ex_conn_def ex_store_def)
  have ranges: "bigint_in_range 50" "bigint_in_range 0" "id_in_range 2"
    by (simp_all add: bigint_in_range_def id_in_range_def)
  have none: "case None of None \<Rightarrow> True | Some (a::int) \<Rightarrow> id_in_range a"
    by simp
  have some: "case Some 2 of None \<Rightarrow> True | Some a \<Rightarrow> id_in_range a"
    by (simp add: ranges)
  from list_books_filters_orders_pages [OF wf ex_engine_orders _ ranges(1) _ ranges(2) none some,
      of "Some ''dragons''"]
  obtain out where "fst ?run = Inr out"
    and "list_all (\<lambda>b. spec_matches (full_text ex_engine) None (Some 2) (Some ''dragons'')
                       (tables ex_conn) (book_of b)) out"
    and "sorted_wrt (title_le ex_engine) (map bo_title out)"
    by auto
  then have proved: "list_all (\<lambda>b. spec_matches (full_text ex_engine) None (Some 2) (Some ''dragons'')
                       (tables ex_conn) (book_of b)) (projr (fst ?run))
      \<and> sorted_wrt (title_le ex_engine) (map bo_title (projr (fst ?run)))"
    by simp
  have runs: "map bo_title (projr (fst ?run)) = [''Winter'']
     \<and> map bo_title (projr (fst (db_list_books ex_engine (Some 2) None None 50 0 ex_conn))) = [''Autumn'']
     \<and> map bo_title (projr (fst (db_list_books ex_engine None None None 50 0 ex_conn)))
         = [''Autumn'', ''Winter'']
     \<and> map bo_title (projr (fst (db_list_books ex_engine None None None 1 1 ex_conn))) = [''Winter'']"
    by code_simp
  from wf ex_engine_orders ranges proved runs show ?thesis by blast
qed

text \<open>
  An \<open>author_id\<close> of \<open>2\<^sup>6\<^sup>3\<close> is refused when it is bound to its placeholder: the listing
  raises instead of returning the (empty) list of matching books.
\<close>

theorem list_books_filters_orders_pages_counterexample:
  "fst (db_list_books ex_engine (Some 9223372036854775808) None None 50 0 ex_conn) = Inl DataError"
  by code_simp

end
